theory Spec2Isabelle
  imports Main "HOL-Library.Sublist"
begin

section \<open>Citation rendering of a chat answer (markdown-content/index.tsx)\<close>

text \<open>
  The component \<^verbatim>\<open>MarkdownContent\<close> takes the answer text \<^verbatim>\<open>content\<close>, the
  reference table \<^verbatim>\<open>reference\<close> and the optional callback \<^verbatim>\<open>clickDocumentButton\<close>.
  JavaScript values of type \<^verbatim>\<open>string | undefined\<close> are \<open>string option\<close>; optional
  chaining \<^verbatim>\<open>a?.b\<close> is \<open>map_option\<close> / \<open>Option.bind\<close>; a click handler is modelled
  by the effect that a click has.
\<close>

subsection \<open>Data model\<close>

text \<open>
  \<^verbatim>\<open>IReferenceChunk\<close> and the entries of \<^verbatim>\<open>doc_aggs\<close>, with the fields the component
  reads. The interface file itself is not part of the sources; the fields and their
  optionality are taken from the accesses in index.tsx (\<^verbatim>\<open>chunkItem?.content ?? ''\<close>,
  \<^verbatim>\<open>imageId && ...\<close>, \<^verbatim>\<open>document?.url\<close>) and from the reference table shape of the
  specification. The field \<^verbatim>\<open>id\<close> is named \<open>chunk_id\<close> here.
\<close>

record chunk =
  chunk_id :: string
  document_id :: string
  content :: "string option"
  image_id :: "string option"
  doc_type :: "string option"

record docagg =
  doc_id :: string
  doc_name :: string
  url :: "string option"

record reference =
  chunks :: "chunk list option"
  doc_aggs :: "docagg list option"

text \<open>
  Everything the component imports from modules that are not part of the sources is a
  parameter of the model:
  \<^item> \<open>translate\<close> is \<^verbatim>\<open>t\<close> of \<^verbatim>\<open>useTranslation\<close>;
  \<^item> \<open>replaceTextByOldReg\<close>, \<open>replaceThinkToSection\<close>, \<open>preprocessLaTeX\<close> are the
    three text passes (\<^verbatim>\<open>../utils\<close>, \<^verbatim>\<open>@/utils/chat\<close>);
  \<^item> \<open>showImage\<close> (\<^verbatim>\<open>@/utils/chat\<close>) and \<open>getExtension\<close> (\<^verbatim>\<open>@/utils/document-util\<close>);
  \<^item> \<open>sanitize\<close> is \<^verbatim>\<open>DOMPurify.sanitize\<close>;
  \<^item> \<open>fileThumbnails\<close> is the record returned by \<^verbatim>\<open>useFetchDocumentThumbnailsByIds\<close>;
  \<^item> \<open>markerOpen\<close> and \<open>markerClose\<close> are the two delimiters of \<^verbatim>\<open>currentReg\<close>
    (\<^verbatim>\<open>../utils\<close>), see \<open>matchAt\<close> below.
\<close>

record deps =
  translate :: "string \<Rightarrow> string"
  replaceTextByOldReg :: "string \<Rightarrow> string"
  replaceThinkToSection :: "string \<Rightarrow> string"
  preprocessLaTeX :: "string \<Rightarrow> string"
  showImage :: "string option \<Rightarrow> bool"
  getExtension :: "string \<Rightarrow> string"
  sanitize :: "string \<Rightarrow> string"
  fileThumbnails :: "string \<Rightarrow> string option"
  markerOpen :: string
  markerClose :: string

text \<open>JavaScript truthiness of a \<^verbatim>\<open>string | undefined\<close>: defined and not empty.\<close>

definition truthy :: "string option \<Rightarrow> bool" where
  "truthy v = (case v of None \<Rightarrow> False | Some s \<Rightarrow> s \<noteq> [])"

subsection \<open>contentWithCursor (lines 50-58)\<close>

text \<open>
  \<^verbatim>\<open>
  // let text = DOMPurify.sanitize(content);
  let text = content;
  if (text === '') { text = t('chat.searching'); }
  const nextText = replaceTextByOldReg(text);
  return pipe(replaceThinkToSection, preprocessLaTeX)(nextText);
  \<close>
  \<^verbatim>\<open>pipe(f, g)(x)\<close> of lodash/fp is \<^verbatim>\<open>g(f(x))\<close>. The result is the text handed to
  \<^verbatim>\<open>Markdown\<close>, whose plugin list contains \<^verbatim>\<open>rehypeRaw\<close>.
\<close>

definition contentWithCursor :: "deps \<Rightarrow> string \<Rightarrow> string" where
  "contentWithCursor D content_in =
     (let text0 = content_in;
          text1 = (if text0 = [] then translate D ''chat.searching'' else text0);
          nextText = replaceTextByOldReg D text1
      in preprocessLaTeX D (replaceThinkToSection D nextText))"

subsection \<open>handleDocumentButtonClick (lines 65-83)\<close>

text \<open>
  What a click on a document link does. \<open>WindowOpen u ''_blank''\<close> is
  \<^verbatim>\<open>window.open(u, '_blank')\<close>; \<open>ClickDocumentButton d c\<close> is the call of the callback
  \<^verbatim>\<open>clickDocumentButton(d, c)\<close>; \<open>NoEffect\<close> is a handler that returns without doing
  anything.
\<close>

datatype effect =
  NoEffect
  | WindowOpen string string
  | ClickDocumentButton string "chunk option"

text \<open>
  \<^verbatim>\<open>
  if (!isPdf) {
    if (!documentUrl) { return; }
    window.open(documentUrl, '_blank');
  } else {
    clickDocumentButton?.(documentId, chunk);
  }
  \<close>
  \<open>hasCallback\<close> says whether the optional prop \<^verbatim>\<open>clickDocumentButton\<close> was supplied.
\<close>

definition handleDocumentButtonClick ::
  "bool \<Rightarrow> string \<Rightarrow> chunk option \<Rightarrow> bool \<Rightarrow> string option \<Rightarrow> effect" where
  "handleDocumentButtonClick hasCallback documentId chunkArg isPdf documentUrl =
     (if \<not> isPdf then
        (case documentUrl of
           None \<Rightarrow> NoEffect
         | Some u \<Rightarrow> if u = [] then NoEffect else WindowOpen u ''_blank'')
      else (if hasCallback then ClickDocumentButton documentId chunkArg else NoEffect))"

subsection \<open>getReferenceInfo (lines 102-126)\<close>

record referenceInfo =
  documentUrl :: "string option"
  fileThumbnail :: "string option"
  fileExtension :: string
  imageId :: "string option"
  chunkItem :: "chunk option"
  documentId :: "string option"
  document :: "docagg option"

text \<open>
  \<^verbatim>\<open>chunks[chunkIndex]\<close> on a JavaScript array is \<^verbatim>\<open>undefined\<close> outside the array;
  nothing is raised.
\<close>

definition chunkAt :: "chunk list \<Rightarrow> nat \<Rightarrow> chunk option" where
  "chunkAt cs i = (if i < length cs then Some (cs ! i) else None)"

definition chunksOf :: "reference option \<Rightarrow> chunk list" where
  "chunksOf r = (case r of None \<Rightarrow> [] | Some rf \<Rightarrow> (case chunks rf of None \<Rightarrow> [] | Some cs \<Rightarrow> cs))"

text \<open>
  \<^verbatim>\<open>reference?.doc_aggs?.find((x) => x?.doc_id === chunkItem?.document_id)\<close>: the first
  aggregate whose \<^verbatim>\<open>doc_id\<close> is the chunk's \<^verbatim>\<open>document_id\<close>. With no chunk the right-hand
  side is \<^verbatim>\<open>undefined\<close>, which no \<^verbatim>\<open>doc_id\<close> (a string) equals.
\<close>

definition findDocument :: "reference option \<Rightarrow> chunk option \<Rightarrow> docagg option" where
  "findDocument r item =
     (case r of
        None \<Rightarrow> None
      | Some rf \<Rightarrow>
          (case doc_aggs rf of
             None \<Rightarrow> None
           | Some ds \<Rightarrow> find (\<lambda>x. Some (doc_id x) = map_option document_id item) ds))"

definition getReferenceInfo :: "deps \<Rightarrow> reference option \<Rightarrow> nat \<Rightarrow> referenceInfo" where
  "getReferenceInfo D r chunkIndex =
     (let item = chunkAt (chunksOf r) chunkIndex;
          doc = findDocument r item;
          docId = map_option doc_id doc
      in \<lparr> documentUrl = Option.bind doc url,
           fileThumbnail = (case docId of
                              None \<Rightarrow> Some []
                            | Some d \<Rightarrow> if d = [] then Some [] else fileThumbnails D d),
           fileExtension = (case doc of
                              None \<Rightarrow> []
                            | Some d \<Rightarrow> if doc_id d = [] then [] else getExtension D (doc_name d)),
           imageId = Option.bind item image_id,
           chunkItem = item,
           documentId = docId,
           document = doc \<rparr>)"

subsection \<open>getPopoverContent (lines 128-198)\<close>

text \<open>
  The popover body. \<open>popKey\<close> is \<^verbatim>\<open>key={chunkItem?.id}\<close>; \<open>popImage\<close> is the image id of
  the \<^verbatim>\<open>Image\<close> pair, rendered only under \<^verbatim>\<open>imageId && ...\<close>; \<open>popHtml\<close> is the string
  given to \<^verbatim>\<open>dangerouslySetInnerHTML\<close>; \<open>popLink\<close> is the block rendered under
  \<^verbatim>\<open>documentId && ...\<close>: the thumbnail (\<open>Inl src\<close>) or the file icon (\<open>Inr name\<close>), and the
  link button with its click effect and its label \<^verbatim>\<open>document?.doc_name\<close>.
\<close>

record docLink =
  linkIcon :: "string + string"
  linkOnClick :: effect
  linkLabel :: "string option"

record popover =
  popKey :: "string option"
  popImage :: "string option"
  popHtml :: string
  popLink :: "docLink option"

definition getPopoverContent :: "deps \<Rightarrow> bool \<Rightarrow> reference option \<Rightarrow> nat \<Rightarrow> popover" where
  "getPopoverContent D hasCallback r chunkIndex =
     (let info = getReferenceInfo D r chunkIndex
      in \<lparr> popKey = map_option chunk_id (chunkItem info),
           popImage = (if truthy (imageId info) then imageId info else None),
           popHtml = sanitize D (case Option.bind (chunkItem info) content of
                                   None \<Rightarrow> []
                                 | Some s \<Rightarrow> s),
           popLink =
             (case documentId info of
                None \<Rightarrow> None
              | Some d \<Rightarrow>
                  if d = [] then None
                  else Some \<lparr> linkIcon = (case fileThumbnail info of
                                             None \<Rightarrow> Inr (''file-icon/'' @ fileExtension info)
                                           | Some th \<Rightarrow>
                                               if th = [] then Inr (''file-icon/'' @ fileExtension info)
                                               else Inl th),
                              linkOnClick = handleDocumentButtonClick hasCallback d (chunkItem info)
                                              (fileExtension info = ''pdf'') (documentUrl info),
                              linkLabel = map_option doc_name (document info) \<rparr>) \<rparr>)"

subsection \<open>The marker pattern currentReg and getChunkIndex (line 35)\<close>

text \<open>
  Modelled from the spec: \<^verbatim>\<open>currentReg\<close> is imported from \<^verbatim>\<open>../utils\<close>, which is not part
  of the sources. The specification gives the marker grammar as a delimiter pair
  enclosing a decimal integer, and \<^verbatim>\<open>getChunkIndex = (match) => Number(match)\<close> turns the
  captured text into the index directly, so the capture group is the integer alone: the
  pattern is \<^verbatim>\<open>OPEN(\d+)CLOSE\<close> for two literal delimiters, the parameters \<open>markerOpen\<close>
  and \<open>markerClose\<close>.

  \<open>matchAt D s\<close> is the match of the pattern at the start of \<open>s\<close>: the captured digits
  and the text after the match. \<^verbatim>\<open>\d+\<close> is greedy and gives digits back one at a time
  until the closing delimiter follows (\<open>tryDigits\<close>).
\<close>

definition isDigit :: "char \<Rightarrow> bool" where
  "isDigit c = (c \<in> set ''0123456789'')"

fun tryDigits :: "string \<Rightarrow> nat \<Rightarrow> string \<Rightarrow> (string \<times> string) option" where
  "tryDigits cl 0 s = None"
| "tryDigits cl (Suc n) s =
     (if prefix cl (drop (Suc n) s) then Some (take (Suc n) s, drop (Suc n + length cl) s)
      else tryDigits cl n s)"

definition matchAt :: "deps \<Rightarrow> string \<Rightarrow> (string \<times> string) option" where
  "matchAt D s =
     (if prefix (markerOpen D) s
      then (let s' = drop (length (markerOpen D)) s
            in tryDigits (markerClose D) (length (takeWhile isDigit s')) s')
      else None)"

text \<open>
  \<^verbatim>\<open>Number(match)\<close> on a non-empty string of decimal digits, which is all the capture
  group can hold. The value is used only as an array index (\<^verbatim>\<open>chunks[chunkIndex]\<close>). A
  JavaScript array is shorter than \<open>2^32\<close>; \<^verbatim>\<open>Number\<close> is exact up to \<open>2^53\<close>, and a
  larger value is still outside the array after rounding, so the natural number gives
  the same lookup.
\<close>

definition digitVal :: "char \<Rightarrow> nat" where
  "digitVal c = of_char c - 48"

definition getChunkIndex :: "string \<Rightarrow> nat" where
  "getChunkIndex m = foldl (\<lambda>n c. 10 * n + digitVal c) 0 m"

subsection \<open>renderReference (lines 200-239)\<close>

text \<open>
  What the component renders: text, an ordinary element with its children, the inline
  \<^verbatim>\<open>Image\<close> of a marker (its \<^verbatim>\<open>id\<close> and the effect of a click), the \<^verbatim>\<open>Popover\<close> of a
  marker (its \<^verbatim>\<open>key\<close> and its content), a \<^verbatim>\<open>SyntaxHighlighter\<close> (language and text), and
  a raw node, whose string \<^verbatim>\<open>rehypeRaw\<close> parses as HTML.
\<close>

datatype rnode =
  RText string
  | RElem string "rnode list"
  | RImage "string option" effect
  | RPopover nat popover
  | RHighlighter string string
  | RRaw string

text \<open>
  The callback given to \<^verbatim>\<open>reactStringReplace\<close>: \<open>m\<close> is the captured text and \<open>i\<close> the
  position in the split array.
  \<^verbatim>\<open>
  const chunkIndex = getChunkIndex(match);
  const { documentUrl, fileExtension, imageId, chunkItem, documentId } =
    getReferenceInfo(chunkIndex);
  const docType = chunkItem?.doc_type;
  return showImage(docType)
    ? <Image id={imageId} onClick={documentId ? handleDocumentButtonClick(documentId,
          chunkItem, fileExtension === 'pdf', documentUrl) : () => {}} />
    : <Popover content={getPopoverContent(chunkIndex)} key={i}> ... </Popover>;
  \<close>
\<close>

definition renderMarker :: "deps \<Rightarrow> bool \<Rightarrow> reference option \<Rightarrow> string \<Rightarrow> nat \<Rightarrow> rnode" where
  "renderMarker D hasCallback r m i =
     (let chunkIndex = getChunkIndex m;
          info = getReferenceInfo D r chunkIndex;
          docType = Option.bind (chunkItem info) doc_type
      in if showImage D docType
         then RImage (imageId info)
                (case documentId info of
                   None \<Rightarrow> NoEffect
                 | Some d \<Rightarrow>
                     if d = [] then NoEffect
                     else handleDocumentButtonClick hasCallback d (chunkItem info)
                            (fileExtension info = ''pdf'') (documentUrl info))
         else RPopover i (getPopoverContent D hasCallback r chunkIndex))"

text \<open>
  \<^verbatim>\<open>str.split(currentReg)\<close>: the pieces of text between the matches, with the captured
  text of each match between them; the scan finds the leftmost match from the end of the
  previous one. \<open>cur\<close> holds the current piece, reversed.
\<close>

function splitRe :: "deps \<Rightarrow> string \<Rightarrow> string \<Rightarrow> string list" where
  "splitRe D cur [] = [rev cur]"
| "splitRe D cur (c # cs) =
     (case matchAt D (c # cs) of
        Some (cap, rest) \<Rightarrow> rev cur # cap # splitRe D [] rest
      | None \<Rightarrow> splitRe D (c # cur) cs)"
  by pat_completeness auto
termination
proof (relation "measure (\<lambda>(D, cur, s). length s)")
  show "wf (measure (\<lambda>(D, cur, s). length s))" by simp
next
  fix D :: deps and cur :: string and c :: char and cs x y :: string
    and x2 :: "string \<times> string"
  assume m: "matchAt D (c # cs) = Some x2" and x2: "(x, y) = x2"
  have td: "tryDigits cl n s = Some (ds, rest) \<Longrightarrow> \<exists>k. 0 < k \<and> rest = drop (k + length cl) s"
    for cl n s ds rest
    by (induction n) (auto split: if_splits)
  from m x2 have "length y < length (c # cs)"
    unfolding matchAt_def Let_def
    by (auto split: if_splits dest!: td)
  then show "((D, [], y), (D, cur, c # cs)) \<in> measure (\<lambda>(D, cur, s). length s)"
    by simp
next
  fix D :: deps and cur :: string and c :: char and cs :: string
  show "((D, c # cur, cs), (D, cur, c # cs)) \<in> measure (\<lambda>(D, cur, s). length s)"
    by simp
qed

text \<open>
  \<^verbatim>\<open>replaceString\<close> of react-string-replace: the callback replaces the elements at the
  odd positions of the split array; the elements at the even positions stay as text.
\<close>

fun applyOdd :: "(string \<Rightarrow> nat \<Rightarrow> rnode) \<Rightarrow> nat \<Rightarrow> string list \<Rightarrow> rnode list" where
  "applyOdd f i [] = []"
| "applyOdd f i (x # xs) = (if odd i then f x i else RText x) # applyOdd f (Suc i) xs"

definition replaceString :: "deps \<Rightarrow> (string \<Rightarrow> nat \<Rightarrow> rnode) \<Rightarrow> string \<Rightarrow> rnode list" where
  "replaceString D f str = applyOdd f 0 (splitRe D [] str)"

text \<open>
  \<^verbatim>\<open>reactStringReplace(source, currentReg, fn)\<close>: a source that is not an array is taken as
  the array of that one element; every string of the source is replaced by its
  \<^verbatim>\<open>replaceString\<close>, every other element is kept, and the result is flattened.
\<close>

fun reactStringReplace :: "deps \<Rightarrow> (string \<Rightarrow> nat \<Rightarrow> rnode) \<Rightarrow> rnode list \<Rightarrow> rnode list" where
  "reactStringReplace D f [] = []"
| "reactStringReplace D f (RText s # xs) = replaceString D f s @ reactStringReplace D f xs"
| "reactStringReplace D f (x # xs) = x # reactStringReplace D f xs"

text \<open>
  \<open>renderReference\<close> takes the children of a \<^verbatim>\<open>custom-typography\<close> element as
  react-markdown hands them over; for the wrapper that \<open>wrapTextTransform\<close> creates they
  are the one string \<open>[RText text]\<close>.
\<close>

definition renderReference :: "deps \<Rightarrow> bool \<Rightarrow> reference option \<Rightarrow> rnode list \<Rightarrow> rnode list" where
  "renderReference D hasCallback r children =
     reactStringReplace D (renderMarker D hasCallback r) children"

subsection \<open>rehypeWrapReference (lines 85-100)\<close>

text \<open>
  The document tree that the rehype plugins work on: the root, elements (tag name,
  properties, children), text, raw HTML and comments.
\<close>

datatype hast =
  Root "hast list"
  | Element string "(string \<times> string) list" "hast list"
  | Text string
  | Raw string
  | Comment string

text \<open>
  \<^verbatim>\<open>
  visitParents(tree, 'text', (node, ancestors) => {
    const latestAncestor = ancestors.at(-1);
    if (latestAncestor.tagName !== 'custom-typography' &&
        latestAncestor.tagName !== 'code') {
      node.type = 'element';
      node.tagName = 'custom-typography';
      node.properties = {};
      node.children = [{ type: 'text', value: node.value }];
    }
  });
  \<close>
  The visitor reads only the last ancestor, the parent: \<open>parentTag\<close> is its
  \<^verbatim>\<open>tagName\<close>, \<open>None\<close> for the root, which has none. \<^verbatim>\<open>visitParents\<close> walks the tree in
  pre-order and goes on into the children of the node after the visitor has run, so it
  also visits the text node inside a wrapper it has just made; the parent of that node
  is the \<^verbatim>\<open>custom-typography\<close> wrapper and the visitor leaves it alone.
\<close>

fun wrapNode :: "string option \<Rightarrow> hast \<Rightarrow> hast" where
  "wrapNode parentTag (Text v) =
     (if parentTag \<noteq> Some ''custom-typography'' \<and> parentTag \<noteq> Some ''code''
      then Element ''custom-typography'' [] [Text v]
      else Text v)"
| "wrapNode parentTag (Element tag props cs) = Element tag props (map (wrapNode (Some tag)) cs)"
| "wrapNode parentTag (Root cs) = Root (map (wrapNode None) cs)"
| "wrapNode parentTag (Raw h) = Raw h"
| "wrapNode parentTag (Comment c) = Comment c"

text \<open>
  The transform is called on the whole tree, with no ancestors. If the tree itself is a
  text node, \<^verbatim>\<open>ancestors.at(-1)\<close> is \<^verbatim>\<open>undefined\<close> and reading its \<^verbatim>\<open>tagName\<close> raises a
  \<^verbatim>\<open>TypeError\<close>.
\<close>

datatype error = TypeError

definition wrapTextTransform :: "hast \<Rightarrow> error + hast" where
  "wrapTextTransform tree =
     (case tree of
        Text v \<Rightarrow> Inl TypeError
      | _ \<Rightarrow> Inr (wrapNode None tree))"

subsection \<open>The components table (lines 246-452)\<close>

text \<open>
  The \<^verbatim>\<open>code\<close> component looks for \<^verbatim>\<open>/language-(\w+)/\<close> in the class name: with a match
  it renders a \<^verbatim>\<open>SyntaxHighlighter\<close> over \<^verbatim>\<open>String(children).replace(/\n$/, '')\<close>, without
  one a \<^verbatim>\<open>code\<close> element over the children.
\<close>

definition isWord :: "char \<Rightarrow> bool" where
  "isWord c = (c \<in> set ''abcdefghijklmnopqrstuvwxyzABCDEFGHIJKLMNOPQRSTUVWXYZ0123456789_'')"

fun languageMatch :: "string \<Rightarrow> string option" where
  "languageMatch [] = None"
| "languageMatch (c # cs) =
     (if prefix ''language-'' (c # cs) \<and> takeWhile isWord (drop 9 (c # cs)) \<noteq> []
      then Some (takeWhile isWord (drop 9 (c # cs)))
      else languageMatch cs)"

definition languageOf :: "(string \<times> string) list \<Rightarrow> string option" where
  "languageOf props =
     (case map_of props ''className'' of None \<Rightarrow> None | Some cn \<Rightarrow> languageMatch cn)"

text \<open>
  \<^verbatim>\<open>String(children)\<close>: a string is itself, an element is \<^verbatim>\<open>[object Object]\<close>, an array is
  its elements joined by commas, and no children at all (\<^verbatim>\<open>undefined\<close>) is
  \<^verbatim>\<open>undefined\<close>.
\<close>

fun jsStringOf :: "rnode \<Rightarrow> string" where
  "jsStringOf (RText s) = s"
| "jsStringOf x = ''[object Object]''"

fun joinComma :: "string list \<Rightarrow> string" where
  "joinComma [] = []"
| "joinComma [x] = x"
| "joinComma (x # y # ys) = x @ '','' @ joinComma (y # ys)"

definition jsString :: "rnode list \<Rightarrow> string" where
  "jsString cs = (if cs = [] then ''undefined'' else joinComma (map jsStringOf cs))"

definition dropTrailingNewline :: "string \<Rightarrow> string" where
  "dropTrailingNewline s = (if s \<noteq> [] \<and> last s = CHR 0x0A then butlast s else s)"

text \<open>
  react-markdown turns the tree into elements, with the component of the table for the
  tag where there is one: \<^verbatim>\<open>custom-typography\<close> is \<open>renderReference\<close> of its children,
  \<^verbatim>\<open>code\<close> is as above, \<^verbatim>\<open>table\<close> is wrapped in a \<^verbatim>\<open>div\<close>; the other components of the
  table (lists, paragraphs, headings, block quotes, table cells) keep the tag and the
  children and add only class names and styles, which the model leaves out. This step
  runs on the tree that the last plugin, \<^verbatim>\<open>rehypeRaw\<close>, returns (\<open>renderTree\<close> below);
  \<^verbatim>\<open>rehypeRaw\<close> leaves no raw node, so the case of \<open>Raw\<close> is not reached in the component
  and keeps the node as it is.
\<close>

fun renderNode :: "deps \<Rightarrow> bool \<Rightarrow> reference option \<Rightarrow> hast \<Rightarrow> rnode list" where
  "renderNode D hasCallback r (Text v) = [RText v]"
| "renderNode D hasCallback r (Raw h) = [RRaw h]"
| "renderNode D hasCallback r (Comment c) = []"
| "renderNode D hasCallback r (Root cs) = concat (map (renderNode D hasCallback r) cs)"
| "renderNode D hasCallback r (Element tag props cs) =
     (let children = concat (map (renderNode D hasCallback r) cs)
      in if tag = ''custom-typography'' then renderReference D hasCallback r children
         else if tag = ''code'' then
           (case languageOf props of
              None \<Rightarrow> [RElem ''code'' children]
            | Some lang \<Rightarrow> [RHighlighter lang (dropTrailingNewline (jsString children))])
         else if tag = ''table'' then [RElem ''div'' [RElem ''table'' children]]
         else [RElem tag children])"

text \<open>The nodes that a marker was replaced by, anywhere in the rendered output.\<close>

fun annotations :: "rnode \<Rightarrow> rnode list" where
  "annotations (RElem tag cs) = concat (map annotations cs)"
| "annotations (RImage i e) = [RImage i e]"
| "annotations (RPopover k p) = [RPopover k p]"
| "annotations x = []"

subsection \<open>The plugin list and the component (lines 241-456)\<close>

text \<open>
  \<^verbatim>\<open>
  <Markdown rehypePlugins={[rehypeWrapReference, rehypeKatex, rehypeRaw]}
            remarkPlugins={[remarkGfm, remarkMath]} components={...}>
    {contentWithCursor}
  </Markdown>
  \<close>
  The Markdown parser and the two library plugins are parameters: \<open>parseMarkdown\<close> is the
  tree that react-markdown builds from the text (remark with \<^verbatim>\<open>remarkGfm\<close> and
  \<^verbatim>\<open>remarkMath\<close>, then remark-rehype, which keeps HTML as raw nodes), \<open>rehypeKatex\<close> and
  \<open>rehypeRaw\<close> are the tree passes of these names. The plugins run in the order of the
  list: the transform of this file first, \<^verbatim>\<open>rehypeRaw\<close>, which parses the raw nodes
  into elements and text, last; the components render its result.
\<close>

record plugins =
  parseMarkdown :: "string \<Rightarrow> hast"
  rehypeKatex :: "hast \<Rightarrow> hast"
  rehypeRaw :: "hast \<Rightarrow> hast"

definition renderTree ::
  "deps \<Rightarrow> plugins \<Rightarrow> bool \<Rightarrow> reference option \<Rightarrow> hast \<Rightarrow> error + rnode list" where
  "renderTree D P hasCallback r tree =
     (case wrapTextTransform tree of
        Inl e \<Rightarrow> Inl e
      | Inr t \<Rightarrow> Inr (renderNode D hasCallback r (rehypeRaw P (rehypeKatex P t))))"

definition MarkdownContent ::
  "deps \<Rightarrow> plugins \<Rightarrow> bool \<Rightarrow> reference option \<Rightarrow> string \<Rightarrow> error + rnode list" where
  "MarkdownContent D P hasCallback r content_in =
     renderTree D P hasCallback r (parseMarkdown P (contentWithCursor D content_in))"

section \<open>Vocabulary of the statements\<close>

text \<open>
  The text made of the literal piece \<open>l0\<close> followed by markers, each with the digits
  \<open>ds\<close> of its index and the literal piece \<open>l\<close> that follows it.
\<close>

definition markedText :: "deps \<Rightarrow> string \<Rightarrow> (string \<times> string) list \<Rightarrow> string" where
  "markedText D l0 ms =
     l0 @ concat (map (\<lambda>(ds, l). markerOpen D @ ds @ markerClose D @ l) ms)"

text \<open>
  The nodes expected for such a text after the first literal piece: for each marker the
  node \<open>f ds i\<close> that the callback builds at position \<open>i\<close> of the split array, then the
  literal piece as text.
\<close>

fun markerPairs :: "(string \<Rightarrow> nat \<Rightarrow> rnode) \<Rightarrow> nat \<Rightarrow> (string \<times> string) list \<Rightarrow> rnode list" where
  "markerPairs f i [] = []"
| "markerPairs f i ((ds, l) # ms) = f ds i # RText l # markerPairs f (i + 2) ms"

text \<open>No marker starts anywhere in the string.\<close>

fun markerFree :: "deps \<Rightarrow> string \<Rightarrow> bool" where
  "markerFree D [] = True"
| "markerFree D (c # cs) = (matchAt D (c # cs) = None \<and> markerFree D cs)"

text \<open>No marker starts in \<open>l\<close> when the string \<open>F\<close> follows it.\<close>

fun noMatch :: "deps \<Rightarrow> string \<Rightarrow> string \<Rightarrow> bool" where
  "noMatch D [] F = True"
| "noMatch D (c # cs) F = (matchAt D (c # cs @ F) = None \<and> noMatch D cs F)"

text \<open>
  The pieces give an unambiguous text: the delimiters are not empty, the closing
  delimiter does not start with a digit, every index is a non-empty string of digits,
  and no literal piece holds the first character of the opening delimiter.
\<close>

definition wellFormedPieces :: "deps \<Rightarrow> string \<Rightarrow> (string \<times> string) list \<Rightarrow> bool" where
  "wellFormedPieces D l0 ms =
     (markerOpen D \<noteq> [] \<and> markerClose D \<noteq> [] \<and> \<not> isDigit (hd (markerClose D)) \<and>
      hd (markerOpen D) \<notin> set l0 \<and>
      list_all (\<lambda>(ds, l). ds \<noteq> [] \<and> list_all isDigit ds \<and> hd (markerOpen D) \<notin> set l) ms)"

text \<open>The popover body and the node of a marker that resolves to no chunk.\<close>

definition emptyPopover :: "deps \<Rightarrow> popover" where
  "emptyPopover D = \<lparr> popKey = None, popImage = None, popHtml = sanitize D [], popLink = None \<rparr>"

definition inertNode :: "deps \<Rightarrow> nat \<Rightarrow> rnode" where
  "inertNode D i = (if showImage D None then RImage None NoEffect else RPopover i (emptyPopover D))"

text \<open>The decimal numeral of a natural number, as a marker carries its index.\<close>

definition digitChar :: "nat \<Rightarrow> char" where
  "digitChar d = ''0123456789'' ! d"

function decimal :: "nat \<Rightarrow> string" where
  "decimal n = (if n < 10 then [digitChar n] else decimal (n div 10) @ [digitChar (n mod 10)])"
  by pat_completeness auto
termination
  by (relation "measure id") auto

declare decimal.simps [simp del]

text \<open>The aggregates of a reference table, none when the table or the list is absent.\<close>

definition docAggsOf :: "reference option \<Rightarrow> docagg list" where
  "docAggsOf r =
     (case r of None \<Rightarrow> [] | Some rf \<Rightarrow> (case doc_aggs rf of None \<Rightarrow> [] | Some ds \<Rightarrow> ds))"

text \<open>
  The literal pieces and the markers of a text as \<^verbatim>\<open>str.split(currentReg)\<close> finds them: the
  first piece, and for every marker its digits and the piece after it.
\<close>

fun pairUp :: "string list \<Rightarrow> (string \<times> string) list" where
  "pairUp (ds # l # xs) = (ds, l) # pairUp xs"
| "pairUp xs = []"

definition piecesOf :: "deps \<Rightarrow> string \<Rightarrow> string \<times> (string \<times> string) list" where
  "piecesOf D str = (let parts = splitRe D [] str in (hd parts, pairUp (tl parts)))"

text \<open>The nodes of the markers alone, in order, with their positions in the split array.\<close>

fun markerNodes :: "(string \<Rightarrow> nat \<Rightarrow> rnode) \<Rightarrow> nat \<Rightarrow> (string \<times> string) list \<Rightarrow> rnode list" where
  "markerNodes f i [] = []"
| "markerNodes f i ((ds, l) # ms) = f ds i # markerNodes f (i + 2) ms"

text \<open>
  The annotation node of a chunk, written from the chunk itself as the specification
  describes the render decision: the owning document is the first aggregate with the
  document id of the chunk; a click on the document does nothing without such a document
  (or with an empty id), calls the callback for a PDF file and opens the URL otherwise;
  the node is the inline image with the image id of the chunk where \<open>showImage\<close> holds of
  its doc type, and otherwise the popover with the id, the image, the sanitized content
  and the document link of the chunk.
\<close>

definition documentOf :: "reference option \<Rightarrow> chunk \<Rightarrow> docagg option" where
  "documentOf r c = find (\<lambda>x. doc_id x = document_id c) (docAggsOf r)"

definition clickOf :: "deps \<Rightarrow> bool \<Rightarrow> reference option \<Rightarrow> chunk \<Rightarrow> effect" where
  "clickOf D hasCallback r c =
     (case documentOf r c of
        None \<Rightarrow> NoEffect
      | Some d \<Rightarrow>
          if doc_id d = [] then NoEffect
          else if getExtension D (doc_name d) = ''pdf''
          then (if hasCallback then ClickDocumentButton (doc_id d) (Some c) else NoEffect)
          else (case url d of
                  None \<Rightarrow> NoEffect
                | Some u \<Rightarrow> if u = [] then NoEffect else WindowOpen u ''_blank''))"

definition linkOf :: "deps \<Rightarrow> bool \<Rightarrow> reference option \<Rightarrow> chunk \<Rightarrow> docLink option" where
  "linkOf D hasCallback r c =
     (case documentOf r c of
        None \<Rightarrow> None
      | Some d \<Rightarrow>
          if doc_id d = [] then None
          else Some \<lparr> linkIcon = (case fileThumbnails D (doc_id d) of
                                     None \<Rightarrow> Inr (''file-icon/'' @ getExtension D (doc_name d))
                                   | Some th \<Rightarrow>
                                       if th = [] then Inr (''file-icon/'' @ getExtension D (doc_name d))
                                       else Inl th),
                      linkOnClick = clickOf D hasCallback r c,
                      linkLabel = Some (doc_name d) \<rparr>)"

definition chunkNode :: "deps \<Rightarrow> bool \<Rightarrow> reference option \<Rightarrow> chunk \<Rightarrow> nat \<Rightarrow> rnode" where
  "chunkNode D hasCallback r c i =
     (if showImage D (doc_type c)
      then RImage (image_id c) (clickOf D hasCallback r c)
      else RPopover i \<lparr> popKey = Some (chunk_id c),
                        popImage = (if truthy (image_id c) then image_id c else None),
                        popHtml = sanitize D (case content c of None \<Rightarrow> [] | Some s \<Rightarrow> s),
                        popLink = linkOf D hasCallback r c \<rparr>)"

text \<open>
  Trees. \<open>noWrapper\<close>: the tree holds no \<^verbatim>\<open>custom-typography\<close> element; \<open>rawFree\<close>: it holds
  no raw node. \<open>textParents\<close> lists the text nodes in document order, each with the tag of
  its parent; \<open>wrappers\<close> counts the \<^verbatim>\<open>custom-typography\<close> elements. \<open>processedTexts\<close> lists,
  in document order, the text nodes whose parent is not a code element and that do not
  lie under a code element with a language class.
\<close>

fun noWrapper :: "hast \<Rightarrow> bool" where
  "noWrapper (Element tag props cs) = (tag \<noteq> ''custom-typography'' \<and> list_all noWrapper cs)"
| "noWrapper (Root cs) = list_all noWrapper cs"
| "noWrapper x = True"

fun rawFree :: "hast \<Rightarrow> bool" where
  "rawFree (Element tag props cs) = list_all rawFree cs"
| "rawFree (Root cs) = list_all rawFree cs"
| "rawFree (Raw h) = False"
| "rawFree x = True"

fun textParents :: "string option \<Rightarrow> hast \<Rightarrow> (string option \<times> string) list" where
  "textParents p (Text v) = [(p, v)]"
| "textParents p (Element tag props cs) = concat (map (textParents (Some tag)) cs)"
| "textParents p (Root cs) = concat (map (textParents None) cs)"
| "textParents p x = []"

fun wrappers :: "hast \<Rightarrow> nat" where
  "wrappers (Element tag props cs) =
     (if tag = ''custom-typography'' then 1 else 0) + sum_list (map wrappers cs)"
| "wrappers (Root cs) = sum_list (map wrappers cs)"
| "wrappers x = 0"

fun processedTexts :: "string option \<Rightarrow> hast \<Rightarrow> string list" where
  "processedTexts p (Text v) = (if p = Some ''code'' then [] else [v])"
| "processedTexts p (Element tag props cs) =
     (if tag = ''code'' \<and> languageOf props \<noteq> None then []
      else concat (map (processedTexts (Some tag)) cs))"
| "processedTexts p (Root cs) = concat (map (processedTexts None) cs)"
| "processedTexts p x = []"

text \<open>
  Rendered output. \<open>annotationsOf\<close>: the annotation nodes of a rendered list, in order;
  \<open>outsideTextsOf\<close>: its texts at any depth, but for the texts that are direct children of
  a code element (\<open>inCode\<close> says whether the list itself is the children of one).
\<close>

definition annotationsOf :: "rnode list \<Rightarrow> rnode list" where
  "annotationsOf xs = concat (map annotations xs)"

fun outsideTexts :: "bool \<Rightarrow> rnode \<Rightarrow> string list" where
  "outsideTexts inCode (RText s) = (if inCode then [] else [s])"
| "outsideTexts inCode (RElem tag cs) = concat (map (outsideTexts (tag = ''code'')) cs)"
| "outsideTexts inCode x = []"

definition outsideTextsOf :: "bool \<Rightarrow> rnode list \<Rightarrow> string list" where
  "outsideTextsOf inCode xs = concat (map (outsideTexts inCode) xs)"

text \<open>Whether a rendered marker is the inline image.\<close>

fun isInlineMedia :: "rnode \<Rightarrow> bool" where
  "isInlineMedia (RImage i e) = True"
| "isInlineMedia x = False"

subsection \<open>Sample inputs for the concrete instances\<close>

text \<open>
  A sample environment: the marker delimiters \<^verbatim>\<open>[ID:\<close> and \<^verbatim>\<open>]\<close>, a translation that
  returns its key, text passes that change nothing (the sample texts hold none of the
  syntax the passes rewrite), \<open>showImage\<close> true of the type \<^verbatim>\<open>image\<close> only, the extension
  as the text after the last dot, no thumbnails, and a stand-in for the sanitizer that
  deletes every \<^verbatim>\<open><\<close>.
\<close>

definition sampleDeps :: deps where
  "sampleDeps =
     \<lparr> translate = (\<lambda>k. k),
       replaceTextByOldReg = (\<lambda>s. s),
       replaceThinkToSection = (\<lambda>s. s),
       preprocessLaTeX = (\<lambda>s. s),
       showImage = (\<lambda>d. d = Some ''image''),
       getExtension = (\<lambda>n. rev (takeWhile (\<lambda>c. c \<noteq> CHR ''.'') (rev n))),
       sanitize = filter (\<lambda>c. c \<noteq> CHR ''<''),
       fileThumbnails = (\<lambda>d. None),
       markerOpen = ''[ID:'',
       markerClose = '']'' \<rparr>"

text \<open>
  A sample reference table: chunk 0 is an image chunk, chunk 1 names a document that is
  not among the aggregates, chunk 2 belongs to a text file without a URL, chunk 3 to a
  PDF file with a URL, chunk 4 to a web page with a URL.
\<close>

definition sampleChunks :: "chunk list" where
  "sampleChunks =
     [ \<lparr> chunk_id = ''c0'', document_id = ''d0'', content = Some ''a picture'',
         image_id = Some ''img1'', doc_type = Some ''image'' \<rparr>,
       \<lparr> chunk_id = ''c1'', document_id = ''missing'',
         content = Some ''<b>bold</b><script>alert(1)</script>'',
         image_id = None, doc_type = None \<rparr>,
       \<lparr> chunk_id = ''c2'', document_id = ''d2'', content = Some ''notes'',
         image_id = None, doc_type = None \<rparr>,
       \<lparr> chunk_id = ''c3'', document_id = ''d3'', content = Some ''paper'',
         image_id = None, doc_type = None \<rparr>,
       \<lparr> chunk_id = ''c4'', document_id = ''d4'', content = Some ''page'',
         image_id = None, doc_type = None \<rparr> ]"

definition sampleDocs :: "docagg list" where
  "sampleDocs =
     [ \<lparr> doc_id = ''d0'', doc_name = ''photo.png'', url = None \<rparr>,
       \<lparr> doc_id = ''d2'', doc_name = ''notes.txt'', url = None \<rparr>,
       \<lparr> doc_id = ''d3'', doc_name = ''paper.pdf'', url = Some ''https://example.org/paper.pdf'' \<rparr>,
       \<lparr> doc_id = ''d4'', doc_name = ''page.html'', url = Some ''https://example.org/page'' \<rparr> ]"

definition sampleReference :: "reference option" where
  "sampleReference = Some \<lparr> chunks = Some sampleChunks, doc_aggs = Some sampleDocs \<rparr>"

text \<open>
  Sample plugins. The parser and \<^verbatim>\<open>rehypeRaw\<close> are tables that hold what the libraries
  give for the two sample texts with HTML: the line \<^verbatim>\<open><div>see [ID:2]</div>\<close> is an HTML
  block, one raw node, which \<^verbatim>\<open>rehypeRaw\<close> parses into a \<^verbatim>\<open>div\<close> with its text; the line
  \<^verbatim>\<open><code>[ID:2]</code>\<close> is a paragraph of inline HTML, the two tags as raw nodes around
  a text node, which \<^verbatim>\<open>rehypeRaw\<close> parses into a \<^verbatim>\<open>code\<close> element around what stands
  between the tags. Any other text is taken as one paragraph of plain text, and any other
  tree is left as it is. The sample trees hold no math, and \<open>rehypeKatex\<close> changes nothing.
\<close>

definition samplePlugins :: plugins where
  "samplePlugins =
     \<lparr> parseMarkdown =
         (\<lambda>s. if s = ''<div>see [ID:2]</div>'' then Root [Raw ''<div>see [ID:2]</div>'']
              else if s = ''<code>[ID:2]</code>''
              then Root [Element ''p'' [] [Raw ''<code>'', Text ''[ID:2]'', Raw ''</code>'']]
              else Root [Element ''p'' [] [Text s]]),
       rehypeKatex = (\<lambda>t. t),
       rehypeRaw =
         (\<lambda>t. if t = Root [Raw ''<div>see [ID:2]</div>'']
              then Root [Element ''div'' [] [Text ''see [ID:2]'']]
              else if t = Root [Element ''p'' []
                                 [Raw ''<code>'',
                                  Element ''custom-typography'' [] [Text ''[ID:2]''],
                                  Raw ''</code>'']]
              then Root [Element ''p'' []
                          [Element ''code'' []
                             [Element ''custom-typography'' [] [Text ''[ID:2]'']]]]
              else t) \<rparr>"

text \<open>
  A sample tree, a paragraph and a fenced code block of the language \<^verbatim>\<open>js\<close>, and the tree
  that the transform makes of it.
\<close>

definition sampleTree :: hast where
  "sampleTree =
     Root [Element ''p'' [] [Text ''See [ID:0] and [ID:2].''],
           Element ''pre'' []
             [Element ''code'' [(''className'', ''language-js'')] [Text ''x[ID:1]'']]]"

definition sampleWrapped :: hast where
  "sampleWrapped =
     Root [Element ''p'' [] [Element ''custom-typography'' [] [Text ''See [ID:0] and [ID:2].'']],
           Element ''pre'' []
             [Element ''code'' [(''className'', ''language-js'')] [Text ''x[ID:1]'']]]"

section \<open>Properties of the marker pattern and of the split\<close>

lemma tryDigits_SomeD:
  "tryDigits cl n s = Some (ds, rest) \<Longrightarrow>
     \<exists>m. 0 < m \<and> m \<le> n \<and> ds = take m s \<and> prefix cl (drop m s) \<and> rest = drop (m + length cl) s"
  by (induction n) (auto split: if_splits intro: le_SucI)

lemma tryDigits_None_iff:
  "tryDigits cl n s = None \<longleftrightarrow> (\<forall>m. 0 < m \<and> m \<le> n \<longrightarrow> \<not> prefix cl (drop m s))"
proof (induction n)
  case 0
  then show ?case by simp
next
  case (Suc n)
  show ?case
  proof (cases "prefix cl (drop (Suc n) s)")
    case True
    then show ?thesis by auto
  next
    case False
    then have "tryDigits cl (Suc n) s = None \<longleftrightarrow> tryDigits cl n s = None" by simp
    also have "\<dots> \<longleftrightarrow> (\<forall>m. 0 < m \<and> m \<le> n \<longrightarrow> \<not> prefix cl (drop m s))" by (rule Suc.IH)
    also have "\<dots> \<longleftrightarrow> (\<forall>m. 0 < m \<and> m \<le> Suc n \<longrightarrow> \<not> prefix cl (drop m s))"
      using False by (auto simp: le_Suc_eq)
    finally show ?thesis .
  qed
qed

lemma take_digits:
  "m \<le> length (takeWhile P s) \<Longrightarrow> c \<in> set (take m s) \<Longrightarrow> P c"
proof -
  assume m: "m \<le> length (takeWhile P s)" and c: "c \<in> set (take m s)"
  have "take m s = take m (takeWhile P s)"
    using m by (metis takeWhile_dropWhile_id take_append diff_is_0_eq take_0 append_Nil2)
  then have "c \<in> set (takeWhile P s)" using c by (metis in_set_takeD)
  then show "P c" by (rule set_takeWhileD[THEN conjunct2])
qed

lemma matchAt_SomeD:
  assumes "matchAt D s = Some (ds, rest)"
  shows "s = markerOpen D @ ds @ markerClose D @ rest \<and> ds \<noteq> [] \<and> (\<forall>c\<in>set ds. isDigit c)"
proof -
  let ?s' = "drop (length (markerOpen D)) s"
  let ?k = "length (takeWhile isDigit ?s')"
  from assms have pre: "prefix (markerOpen D) s" and td: "tryDigits (markerClose D) ?k ?s' = Some (ds, rest)"
    by (auto simp: matchAt_def Let_def split: if_splits)
  from tryDigits_SomeD[OF td] obtain m where m: "0 < m" "m \<le> ?k" "ds = take m ?s'"
    "prefix (markerClose D) (drop m ?s')" "rest = drop (m + length (markerClose D)) ?s'"
    by blast
  have s: "s = markerOpen D @ ?s'" using pre by (auto simp: prefix_def)
  have s': "?s' = ds @ drop m ?s'" unfolding m(3) by (rule append_take_drop_id[symmetric])
  have d: "drop m ?s' = markerClose D @ rest"
    using m(4,5) by (auto simp: prefix_def) (metis add.commute append_eq_conv_conj drop_drop)
  have len: "m \<le> length ?s'" using m(2) length_takeWhile_le[of isDigit ?s'] by linarith
  have "ds \<noteq> []" using m(1,3) len by auto
  moreover have "\<forall>c\<in>set ds. isDigit c" using take_digits[OF m(2)] m(3) by blast
  moreover have "s = markerOpen D @ ds @ markerClose D @ rest" using s s' d by metis
  ultimately show ?thesis by blast
qed


lemma takeWhile_append_le:
  "length (takeWhile P xs) \<le> length (takeWhile P (xs @ ys))"
  by (induction xs) auto

lemma matchAt_append:
  assumes "matchAt D s \<noteq> None"
  shows "matchAt D (s @ t) \<noteq> None"
proof -
  let ?op = "markerOpen D" and ?cl = "markerClose D"
  let ?s' = "drop (length ?op) s"
  let ?k = "length (takeWhile isDigit ?s')"
  let ?k' = "length (takeWhile isDigit (?s' @ t))"
  from assms obtain ds rest where some: "matchAt D s = Some (ds, rest)" by auto
  then have pre: "prefix ?op s" and td: "tryDigits ?cl ?k ?s' = Some (ds, rest)"
    by (auto simp: matchAt_def Let_def split: if_splits)
  from tryDigits_SomeD[OF td] obtain m where m: "0 < m" "m \<le> ?k" "prefix ?cl (drop m ?s')"
    by blast
  have len: "length ?op \<le> length s" using pre by (rule prefix_length_le)
  have pre': "prefix ?op (s @ t)" using pre by (rule prefix_prefix)
  have drop': "drop (length ?op) (s @ t) = ?s' @ t" using len by simp
  have mlen: "m \<le> length ?s'" using m(2) length_takeWhile_le[of isDigit ?s'] by linarith
  have "prefix ?cl (drop m (?s' @ t))" using m(3) mlen by (simp add: prefix_prefix)
  moreover have "m \<le> ?k'" using m(2) takeWhile_append_le[of isDigit ?s' t] by linarith
  ultimately have "tryDigits ?cl ?k' (?s' @ t) \<noteq> None"
    using m(1) by (auto simp: tryDigits_None_iff)
  then show ?thesis using pre' drop' by (simp add: matchAt_def Let_def)
qed

lemma matchAt_marker:
  assumes ds: "ds \<noteq> []" "\<forall>c\<in>set ds. isDigit c"
    and cl: "markerClose D \<noteq> []" "\<not> isDigit (hd (markerClose D))"
  shows "matchAt D (markerOpen D @ ds @ markerClose D @ rest) = Some (ds, rest)"
proof -
  obtain h cl' where clh: "markerClose D = h # cl'" using cl(1) by (cases "markerClose D") auto
  then have nh: "\<not> isDigit h" using cl(2) by simp
  have tw: "takeWhile isDigit (ds @ markerClose D @ rest) = ds"
    using ds(2) nh by (simp add: takeWhile_append2 clh)
  obtain n where n: "length ds = Suc n" using ds(1) by (cases ds) auto
  have "tryDigits (markerClose D) (length ds) (ds @ markerClose D @ rest) = Some (ds, rest)"
    unfolding n using n by simp
  then show ?thesis by (simp add: matchAt_def Let_def tw)
qed

lemma matchAt_other_head:
  assumes "markerOpen D \<noteq> []" "c \<noteq> hd (markerOpen D)"
  shows "matchAt D (c # cs) = None"
  using assms by (cases "markerOpen D") (auto simp: matchAt_def)

lemma splitRe_literal:
  assumes "markerOpen D \<noteq> []" "hd (markerOpen D) \<notin> set l"
  shows "splitRe D cur (l @ rest) = splitRe D (rev l @ cur) rest"
  using assms(2)
proof (induction l arbitrary: cur)
  case Nil
  then show ?case by simp
next
  case (Cons c l)
  then have "matchAt D (c # l @ rest) = None"
    using matchAt_other_head[OF assms(1)] by auto
  then show ?case using Cons by simp
qed

lemma splitRe_marker:
  assumes "ds \<noteq> []" "\<forall>c\<in>set ds. isDigit c" "markerClose D \<noteq> []" "\<not> isDigit (hd (markerClose D))"
  shows "splitRe D cur (markerOpen D @ ds @ markerClose D @ rest) = rev cur # ds # splitRe D [] rest"
proof -
  obtain c cs where cs: "markerOpen D @ ds @ markerClose D @ rest = c # cs"
    using assms(1) by (cases "markerOpen D @ ds @ markerClose D @ rest") auto
  have "matchAt D (c # cs) = Some (ds, rest)"
    using matchAt_marker[OF assms, of rest] cs by simp
  then show ?thesis unfolding cs by simp
qed

lemma splitRe_markedText:
  assumes "markerOpen D \<noteq> []" "markerClose D \<noteq> []" "\<not> isDigit (hd (markerClose D))"
    and "hd (markerOpen D) \<notin> set l0"
    and "\<forall>(ds, l)\<in>set ms. ds \<noteq> [] \<and> (\<forall>c\<in>set ds. isDigit c) \<and> hd (markerOpen D) \<notin> set l"
  shows "splitRe D cur (markedText D l0 ms) = (rev cur @ l0) # concat (map (\<lambda>(ds, l). [ds, l]) ms)"
  using assms(4,5)
proof (induction ms arbitrary: cur l0)
  case Nil
  then show ?case
    using splitRe_literal[OF assms(1), of l0 cur "[]"] by (simp add: markedText_def)
next
  case (Cons p ms)
  obtain ds l where p: "p = (ds, l)" by (cases p)
  from Cons.prems p have ds: "ds \<noteq> []" "\<forall>c\<in>set ds. isDigit c" and l: "hd (markerOpen D) \<notin> set l"
    and rest: "\<forall>(ds, l)\<in>set ms. ds \<noteq> [] \<and> (\<forall>c\<in>set ds. isDigit c) \<and> hd (markerOpen D) \<notin> set l"
    by auto
  have eq: "markedText D l0 (p # ms) = l0 @ (markerOpen D @ ds @ markerClose D @ markedText D l ms)"
    by (simp add: markedText_def p)
  have "splitRe D cur (markedText D l0 (p # ms))
        = splitRe D (rev l0 @ cur) (markerOpen D @ ds @ markerClose D @ markedText D l ms)"
    unfolding eq using splitRe_literal[OF assms(1) Cons.prems(1)] by simp
  also have "\<dots> = rev (rev l0 @ cur) # ds # splitRe D [] (markedText D l ms)"
    by (rule splitRe_marker[OF ds assms(2,3)])
  also have "splitRe D [] (markedText D l ms) = l # concat (map (\<lambda>(ds, l). [ds, l]) ms)"
    using Cons.IH[OF l rest, of "[]"] by simp
  finally show ?case by (simp add: p)
qed

lemma applyOdd_pairs:
  "even i \<Longrightarrow> applyOdd f i (l0 # concat (map (\<lambda>(ds, l). [ds, l]) ms))
     = RText l0 # markerPairs f (Suc i) ms"
proof (induction ms arbitrary: i l0)
  case Nil
  then show ?case by simp
next
  case (Cons p ms)
  obtain ds l where p: "p = (ds, l)" by (cases p)
  show ?case using Cons.prems Cons.IH[of "Suc (Suc i)" l] by (simp add: p)
qed

lemma renderReference_markedText:
  assumes "markerOpen D \<noteq> []" "markerClose D \<noteq> []" "\<not> isDigit (hd (markerClose D))"
    and "hd (markerOpen D) \<notin> set l0"
    and "\<forall>(ds, l)\<in>set ms. ds \<noteq> [] \<and> (\<forall>c\<in>set ds. isDigit c) \<and> hd (markerOpen D) \<notin> set l"
  shows "renderReference D cb r [RText (markedText D l0 ms)]
           = RText l0 # markerPairs (renderMarker D cb r) 1 ms"
  using splitRe_markedText[OF assms, of "[]"] applyOdd_pairs[of 0 "renderMarker D cb r" l0 ms]
  by (simp add: renderReference_def replaceString_def)


lemma noMatch_markerFree: "noMatch D l F \<Longrightarrow> markerFree D l"
proof (induction l)
  case Nil
  then show ?case by simp
next
  case (Cons c l)
  then have "matchAt D ((c # l) @ F) = None" by simp
  then have "matchAt D (c # l) = None" using matchAt_append[of D "c # l" F] by blast
  then show ?case using Cons by simp
qed

lemma noMatch_snoc:
  "noMatch D l (c # cs) \<Longrightarrow> matchAt D (c # cs) = None \<Longrightarrow> noMatch D (l @ [c]) cs"
  by (induction l) auto

lemma renderMarker_not_text: "renderMarker D cb r m i \<noteq> RText s"
  by (simp add: renderMarker_def Let_def)

lemma applyOdd_splitRe_markerFree:
  assumes "\<And>x j s. f x j \<noteq> RText s"
  shows "noMatch D (rev cur) s \<Longrightarrow> even i \<Longrightarrow> RText e \<in> set (applyOdd f i (splitRe D cur s))
         \<Longrightarrow> markerFree D e"
proof (induction D cur s arbitrary: i rule: splitRe.induct)
  case (1 D cur)
  then show ?case using noMatch_markerFree[of D "rev cur" "[]"] by simp
next
  case (2 D cur c cs)
  show ?case
  proof (cases "matchAt D (c # cs)")
    case None
    have "noMatch D (rev (c # cur)) cs" using noMatch_snoc[OF "2.prems"(1) None] by simp
    then show ?thesis using "2.IH"(1)[OF None _ "2.prems"(2)] "2.prems"(3) None by simp
  next
    case (Some p)
    obtain cap rest where p: "p = (cap, rest)" by (cases p)
    then have p': "(cap, rest) = p" by simp
    have split: "splitRe D cur (c # cs) = rev cur # cap # splitRe D [] rest"
      using Some p by simp
    from "2.prems"(3) have "e = rev cur \<or> RText e \<in> set (applyOdd f (Suc (Suc i)) (splitRe D [] rest))"
      unfolding split using "2.prems"(2) assms[symmetric] by auto
    then show ?thesis
    proof
      assume "e = rev cur"
      then show ?thesis using noMatch_markerFree[OF "2.prems"(1)] by simp
    next
      assume "RText e \<in> set (applyOdd f (Suc (Suc i)) (splitRe D [] rest))"
      then show ?thesis using "2.IH"(2)[OF Some p', of "Suc (Suc i)"] "2.prems"(2) by simp
    qed
  qed
qed

lemma renderReference_markerFree:
  "RText e \<in> set (renderReference D cb r [RText str]) \<Longrightarrow> markerFree D e"
  using applyOdd_splitRe_markerFree[of "renderMarker D cb r" D "[]" str 0 e]
  by (simp add: renderReference_def replaceString_def renderMarker_not_text)

lemma getChunkIndex_snoc: "getChunkIndex (ds @ [c]) = 10 * getChunkIndex ds + digitVal c"
  by (simp add: getChunkIndex_def)

lemma digit_cases: "d < 10 \<Longrightarrow> (d::nat) \<in> {0, 1, 2, 3, 4, 5, 6, 7, 8, 9}"
  by auto

lemma digitVal_char: "d < 10 \<Longrightarrow> digitVal (digitChar d) = d"
  using digit_cases[of d] by (auto simp: digitVal_def digitChar_def)

lemma isDigit_char: "d < 10 \<Longrightarrow> isDigit (digitChar d)"
  using digit_cases[of d] by (auto simp: isDigit_def digitChar_def)

lemma decimal_unfold_small: "n < 10 \<Longrightarrow> decimal n = [digitChar n]"
  by (subst decimal.simps) simp

lemma decimal_unfold_large:
  "\<not> n < 10 \<Longrightarrow> decimal n = decimal (n div 10) @ [digitChar (n mod 10)]"
  by (subst decimal.simps) simp

lemma getChunkIndex_decimal: "getChunkIndex (decimal n) = n"
proof (induction n rule: decimal.induct)
  case (1 n)
  show ?case
  proof (cases "n < 10")
    case True
    then show ?thesis by (simp add: decimal_unfold_small getChunkIndex_def digitVal_char del: decimal.simps)
  next
    case False
    then show ?thesis using "1.IH"[OF False]
      by (simp add: decimal_unfold_large getChunkIndex_snoc digitVal_char del: decimal.simps)
  qed
qed

lemma decimal_digits: "decimal n \<noteq> [] \<and> (\<forall>c\<in>set (decimal n). isDigit c)"
proof (induction n rule: decimal.induct)
  case (1 n)
  show ?case
  proof (cases "n < 10")
    case True
    then show ?thesis by (simp add: decimal_unfold_small isDigit_char del: decimal.simps)
  next
    case False
    then show ?thesis using "1.IH"[OF False]
      by (simp add: decimal_unfold_large isDigit_char del: decimal.simps)
  qed
qed

lemma renderReference_pieces:
  assumes "wellFormedPieces D l0 ms"
  shows "renderReference D cb r [RText (markedText D l0 ms)]
           = RText l0 # markerPairs (renderMarker D cb r) 1 ms"
proof (rule renderReference_markedText)
  show "\<forall>(ds, l)\<in>set ms. ds \<noteq> [] \<and> (\<forall>c\<in>set ds. isDigit c) \<and> hd (markerOpen D) \<notin> set l"
    using assms by (auto simp: wellFormedPieces_def list_all_iff)
qed (use assms in \<open>auto simp: wellFormedPieces_def\<close>)

lemma chunkAt_out_of_range: "length cs \<le> i \<Longrightarrow> chunkAt cs i = None"
  by (simp add: chunkAt_def)

lemma findDocument_no_chunk: "findDocument r None = None"
  by (auto simp: findDocument_def find_None_iff split: option.splits)

lemma findDocument_chunk:
  "findDocument r (Some c) = find (\<lambda>x. doc_id x = document_id c) (docAggsOf r)"
  by (auto simp: findDocument_def docAggsOf_def split: option.splits)

lemma getReferenceInfo_out_of_range:
  assumes "length (chunksOf r) \<le> n"
  shows "getReferenceInfo D r n =
           \<lparr> documentUrl = None, fileThumbnail = Some [], fileExtension = [], imageId = None,
             chunkItem = None, documentId = None, document = None \<rparr>"
  using assms by (simp add: getReferenceInfo_def Let_def chunkAt_out_of_range findDocument_no_chunk)

lemma getPopoverContent_out_of_range:
  assumes "length (chunksOf r) \<le> n"
  shows "getPopoverContent D cb r n = emptyPopover D"
  using assms
  by (simp add: getPopoverContent_def Let_def getReferenceInfo_out_of_range truthy_def emptyPopover_def)

lemma renderMarker_out_of_range:
  assumes "length (chunksOf r) \<le> getChunkIndex ds"
  shows "renderMarker D cb r ds i = inertNode D i"
  using assms
  by (simp add: renderMarker_def Let_def getReferenceInfo_out_of_range
      getPopoverContent_out_of_range inertNode_def)

lemma splitRe_decomposes:
  "noMatch D (rev cur) s \<Longrightarrow>
     \<exists>l0 ms. rev cur @ s = markedText D l0 ms
       \<and> splitRe D cur s = l0 # concat (map (\<lambda>(ds, l). [ds, l]) ms)
       \<and> markerFree D l0
       \<and> list_all (\<lambda>(ds, l). ds \<noteq> [] \<and> list_all isDigit ds \<and> markerFree D l) ms"
proof (induction D cur s rule: splitRe.induct)
  case (1 D cur)
  have "rev cur @ [] = markedText D (rev cur) []" by (simp add: markedText_def)
  moreover have "splitRe D cur [] = rev cur # concat (map (\<lambda>(ds, l). [ds, l]) [])" by simp
  moreover have "markerFree D (rev cur)" using noMatch_markerFree[OF "1.prems"] .
  moreover have "list_all (\<lambda>(ds, l). ds \<noteq> [] \<and> list_all isDigit ds \<and> markerFree D l) []"
    by simp
  ultimately show ?case by blast
next
  case (2 D cur c cs)
  show ?case
  proof (cases "matchAt D (c # cs)")
    case None
    have "noMatch D (rev (c # cur)) cs" using noMatch_snoc[OF "2.prems" None] by simp
    from "2.IH"(1)[OF None this] obtain l0 ms where
      "rev (c # cur) @ cs = markedText D l0 ms"
      "splitRe D (c # cur) cs = l0 # concat (map (\<lambda>(ds, l). [ds, l]) ms)"
      "markerFree D l0"
      "list_all (\<lambda>(ds, l). ds \<noteq> [] \<and> list_all isDigit ds \<and> markerFree D l) ms"
      by blast
    then show ?thesis using None by auto
  next
    case (Some p)
    obtain cap rest where p: "p = (cap, rest)" by (cases p)
    then have p': "(cap, rest) = p" by simp
    have m: "matchAt D (c # cs) = Some (cap, rest)" using Some p by simp
    from matchAt_SomeD[OF m] have eq: "c # cs = markerOpen D @ cap @ markerClose D @ rest"
      and cap: "cap \<noteq> []" "\<forall>x\<in>set cap. isDigit x" by auto
    have "noMatch D (rev []) rest" by simp
    from "2.IH"(2)[OF Some p' this] obtain l1 ms1 where
      r: "rest = markedText D l1 ms1"
      and sp: "splitRe D [] rest = l1 # concat (map (\<lambda>(ds, l). [ds, l]) ms1)"
      and f1: "markerFree D l1"
      and a1: "list_all (\<lambda>(ds, l). ds \<noteq> [] \<and> list_all isDigit ds \<and> markerFree D l) ms1"
      by auto
    have "rev cur @ c # cs = markedText D (rev cur) ((cap, l1) # ms1)"
      unfolding eq using r by (simp add: markedText_def)
    moreover have "splitRe D cur (c # cs) =
        rev cur # concat (map (\<lambda>(ds, l). [ds, l]) ((cap, l1) # ms1))"
      using m sp by simp
    moreover have "markerFree D (rev cur)" using noMatch_markerFree[OF "2.prems"] .
    moreover have "list_all (\<lambda>(ds, l). ds \<noteq> [] \<and> list_all isDigit ds \<and> markerFree D l)
        ((cap, l1) # ms1)"
      using cap f1 a1 by (simp add: list_all_iff)
    ultimately show ?thesis by blast
  qed
qed

section \<open>Properties of the tree transform and of the rendered tree\<close>

lemma renderMarker_valid:
  assumes "getChunkIndex ds < length (chunksOf r)"
  shows "renderMarker D cb r ds i = chunkNode D cb r (chunksOf r ! getChunkIndex ds) i"
  using assms
  by (auto simp: renderMarker_def getPopoverContent_def getReferenceInfo_def Let_def chunkAt_def
      findDocument_chunk chunkNode_def clickOf_def linkOf_def documentOf_def
      handleDocumentButtonClick_def split: option.splits)

lemma pairUp_pairs: "pairUp (concat (map (\<lambda>(ds, l). [ds, l]) ms)) = ms"
  by (induction ms) auto

lemma piecesOf_decomposes:
  "str = markedText D (fst (piecesOf D str)) (snd (piecesOf D str))
   \<and> splitRe D [] str = fst (piecesOf D str) # concat (map (\<lambda>(ds, l). [ds, l]) (snd (piecesOf D str)))
   \<and> markerFree D (fst (piecesOf D str))
   \<and> list_all (\<lambda>(ds, l). ds \<noteq> [] \<and> list_all isDigit ds \<and> markerFree D l) (snd (piecesOf D str))"
proof -
  have "noMatch D (rev []) str" by simp
  from splitRe_decomposes[OF this] obtain l0 ms where
    a: "str = markedText D l0 ms"
    and b: "splitRe D [] str = l0 # concat (map (\<lambda>(ds, l). [ds, l]) ms)"
    and c: "markerFree D l0"
    and d: "list_all (\<lambda>(ds, l). ds \<noteq> [] \<and> list_all isDigit ds \<and> markerFree D l) ms"
    by auto
  have "piecesOf D str = (l0, ms)" by (simp add: piecesOf_def b pairUp_pairs)
  with a b c d show ?thesis by simp
qed

lemma piecesOf_markedText:
  assumes "wellFormedPieces D l0 ms"
  shows "piecesOf D (markedText D l0 ms) = (l0, ms)"
proof -
  have "splitRe D [] (markedText D l0 ms) = l0 # concat (map (\<lambda>(ds, l). [ds, l]) ms)"
    using splitRe_markedText[of D l0 ms "[]"] assms
    by (auto simp: wellFormedPieces_def list_all_iff)
  then show ?thesis by (simp add: piecesOf_def pairUp_pairs)
qed

lemma renderReference_piecesOf:
  "renderReference D cb r [RText str] =
     RText (fst (piecesOf D str)) # markerPairs (renderMarker D cb r) 1 (snd (piecesOf D str))"
  using piecesOf_decomposes[of str D] applyOdd_pairs[of 0 "renderMarker D cb r"]
  by (simp add: renderReference_def replaceString_def)

lemma annotationsOf_simps:
  "annotationsOf [] = []"
  "annotationsOf (x # xs) = annotations x @ annotationsOf xs"
  "annotationsOf (xs @ ys) = annotationsOf xs @ annotationsOf ys"
  by (simp_all add: annotationsOf_def)

lemma annotationsOf_concat: "annotationsOf (concat xss) = concat (map annotationsOf xss)"
  by (induction xss) (simp_all add: annotationsOf_simps)

lemma annotations_renderMarker: "annotations (renderMarker D cb r ds i) = [renderMarker D cb r ds i]"
  by (simp add: renderMarker_def Let_def)

lemma annotationsOf_markerPairs:
  "annotationsOf (markerPairs (renderMarker D cb r) i ms) = markerNodes (renderMarker D cb r) i ms"
  by (induction ms arbitrary: i) (auto simp: annotationsOf_simps annotations_renderMarker)

lemma annotationsOf_renderReference:
  "annotationsOf (renderReference D cb r [RText v]) =
     markerNodes (renderMarker D cb r) 1 (snd (piecesOf D v))"
  by (simp add: renderReference_piecesOf annotationsOf_simps annotationsOf_markerPairs)

lemma concat_map_cong_set:
  "(\<And>x. x \<in> set xs \<Longrightarrow> f x = g x) \<Longrightarrow> concat (map f xs) = concat (map g xs)"
  by (induction xs) auto

lemma concat_map_concat:
  "concat (map f (concat xss)) = concat (map (\<lambda>xs. concat (map f xs)) xss)"
  by (induction xss) auto

lemma tree_annotations:
  "noWrapper t \<Longrightarrow> p \<noteq> Some ''custom-typography'' \<Longrightarrow>
     annotationsOf (renderNode D cb r (wrapNode p t)) =
       concat (map (\<lambda>v. markerNodes (renderMarker D cb r) 1 (snd (piecesOf D v)))
                   (processedTexts p t))"
proof (induction t arbitrary: p)
  case (Root cs)
  have "\<And>c. c \<in> set cs \<Longrightarrow>
      annotationsOf (renderNode D cb r (wrapNode None c)) =
        concat (map (\<lambda>v. markerNodes (renderMarker D cb r) 1 (snd (piecesOf D v)))
                    (processedTexts None c))"
    using Root by (auto simp: list_all_iff)
  then show ?case
    by (simp add: annotationsOf_concat concat_map_concat comp_def cong: map_cong)
next
  case (Element tag props cs)
  have tag: "tag \<noteq> ''custom-typography''" using Element.prems by simp
  have ih: "\<And>c. c \<in> set cs \<Longrightarrow>
      annotationsOf (renderNode D cb r (wrapNode (Some tag) c)) =
        concat (map (\<lambda>v. markerNodes (renderMarker D cb r) 1 (snd (piecesOf D v)))
                    (processedTexts (Some tag) c))"
    using Element tag by (auto simp: list_all_iff)
  have kids: "annotationsOf (concat (map (renderNode D cb r) (map (wrapNode (Some tag)) cs))) =
      concat (map (\<lambda>v. markerNodes (renderMarker D cb r) 1 (snd (piecesOf D v)))
                  (concat (map (processedTexts (Some tag)) cs)))"
    using ih by (simp add: annotationsOf_concat concat_map_concat comp_def cong: map_cong)
  show ?case
    using tag kids
    by (cases "languageOf props") (auto simp: annotationsOf_simps Let_def annotationsOf_def)
next
  case (Text v)
  then show ?case by (simp add: annotationsOf_simps annotationsOf_renderReference)
next
  case (Raw h)
  then show ?case by (simp add: annotationsOf_simps)
next
  case (Comment c)
  then show ?case by (simp add: annotationsOf_simps)
qed

lemma outsideTextsOf_simps:
  "outsideTextsOf b [] = []"
  "outsideTextsOf b (x # xs) = outsideTexts b x @ outsideTextsOf b xs"
  "outsideTextsOf b (xs @ ys) = outsideTextsOf b xs @ outsideTextsOf b ys"
  by (simp_all add: outsideTextsOf_def)

lemma outsideTextsOf_concat: "outsideTextsOf b (concat xss) = concat (map (outsideTextsOf b) xss)"
  by (induction xss) (simp_all add: outsideTextsOf_simps)

lemma outsideTexts_mono: "set (outsideTexts True x) \<subseteq> set (outsideTexts b x)"
  by (cases x) auto

lemma outsideTextsOf_mono: "set (outsideTextsOf True xs) \<subseteq> set (outsideTextsOf b xs)"
  using outsideTexts_mono by (fastforce simp: outsideTextsOf_def)

lemma outsideTexts_renderMarker: "outsideTexts b (renderMarker D cb r ds i) = []"
  by (simp add: renderMarker_def Let_def)

lemma outsideTextsOf_top:
  "(\<And>x. x \<in> set xs \<Longrightarrow> (\<exists>s. x = RText s) \<or> outsideTexts b x = []) \<Longrightarrow>
     set (outsideTextsOf b xs) \<subseteq> {s. RText s \<in> set xs}"
proof (induction xs)
  case Nil
  then show ?case by (simp add: outsideTextsOf_simps)
next
  case (Cons a xs)
  have a: "set (outsideTexts b a) \<subseteq> {s. RText s = a}"
  proof (cases "\<exists>s. a = RText s")
    case True
    then show ?thesis by (auto split: if_splits)
  next
    case False
    then have "outsideTexts b a = []" using Cons.prems[of a] by auto
    then show ?thesis by simp
  qed
  have "set (outsideTextsOf b xs) \<subseteq> {s. RText s \<in> set xs}"
    using Cons by auto
  with a show ?case by (auto simp: outsideTextsOf_simps)
qed

lemma renderReference_nodes:
  "x \<in> set (renderReference D cb r [RText v]) \<Longrightarrow> (\<exists>s. x = RText s) \<or> outsideTexts b x = []"
proof -
  have "\<And>i. x \<in> set (markerPairs (renderMarker D cb r) i ms) \<Longrightarrow>
      (\<exists>s. x = RText s) \<or> outsideTexts b x = []" for ms
    by (induction ms) (auto simp: outsideTexts_renderMarker)
  then show "x \<in> set (renderReference D cb r [RText v]) \<Longrightarrow> (\<exists>s. x = RText s) \<or> outsideTexts b x = []"
    by (auto simp: renderReference_piecesOf)
qed

lemma outsideTextsOf_renderReference:
  "list_all (markerFree D) (outsideTextsOf b (renderReference D cb r [RText v]))"
proof -
  have "set (outsideTextsOf b (renderReference D cb r [RText v]))
      \<subseteq> {s. RText s \<in> set (renderReference D cb r [RText v])}"
    by (rule outsideTextsOf_top) (rule renderReference_nodes)
  then show ?thesis using renderReference_markerFree by (fastforce simp: list_all_iff)
qed

lemma tree_outside_texts:
  "noWrapper t \<Longrightarrow> p \<noteq> Some ''custom-typography'' \<Longrightarrow>
     list_all (markerFree D)
       (outsideTextsOf (p = Some ''code'') (renderNode D cb r (wrapNode p t)))"
proof (induction t arbitrary: p)
  case (Root cs)
  have ih: "\<And>c. c \<in> set cs \<Longrightarrow>
      list_all (markerFree D) (outsideTextsOf False (renderNode D cb r (wrapNode None c)))"
    using Root.IH[of _ None] Root.prems by (auto simp: list_all_iff)
  have "list_all (markerFree D)
      (outsideTextsOf False (renderNode D cb r (wrapNode p (Root cs))))"
    using ih by (auto simp: outsideTextsOf_concat list_all_iff)
  then show ?case
    using outsideTextsOf_mono[of "renderNode D cb r (wrapNode p (Root cs))" False]
    by (cases "p = Some ''code''") (auto simp: list_all_iff)
next
  case (Element tag props cs)
  have tag: "tag \<noteq> ''custom-typography''" using Element.prems by simp
  have ih: "\<And>c. c \<in> set cs \<Longrightarrow>
      list_all (markerFree D)
        (outsideTextsOf (tag = ''code'') (renderNode D cb r (wrapNode (Some tag) c)))"
    using Element.IH[of _ "Some tag"] Element.prems tag by (auto simp: list_all_iff)
  have kids: "list_all (markerFree D)
      (outsideTextsOf (tag = ''code'')
         (concat (map (renderNode D cb r) (map (wrapNode (Some tag)) cs))))"
    using ih by (auto simp: outsideTextsOf_concat list_all_iff)
  show ?case
    using tag kids
    by (cases "languageOf props")
       (auto simp: outsideTextsOf_simps Let_def outsideTextsOf_def)
next
  case (Text v)
  then show ?case
    using outsideTextsOf_renderReference[of D False cb r v]
    by (auto simp: outsideTextsOf_simps)
next
  case (Raw h)
  then show ?case by (simp add: outsideTextsOf_simps)
next
  case (Comment c)
  then show ?case by (simp add: outsideTextsOf_simps)
qed

lemma textParents_wrapNode:
  "textParents p (wrapNode p t) =
     map (\<lambda>(q, v). (if q = Some ''code'' \<or> q = Some ''custom-typography'' then q
                     else Some ''custom-typography'', v))
         (textParents p t)"
proof (induction t arbitrary: p)
  case (Root cs)
  then show ?case by (simp add: map_concat comp_def cong: map_cong)
next
  case (Element tag props cs)
  then show ?case by (simp add: map_concat comp_def cong: map_cong)
qed auto

lemma sum_list_concat_len: "length (concat xss) = sum_list (map length xss)"
  by (induction xss) auto

lemma wrappers_wrapNode:
  "wrappers (wrapNode p t) =
     wrappers t + length (filter (\<lambda>(q, v). q \<noteq> Some ''code'' \<and> q \<noteq> Some ''custom-typography'')
                                 (textParents p t))"
proof (induction t arbitrary: p)
  case (Root cs)
  then show ?case
    by (induction cs) (auto simp: comp_def)
next
  case (Element tag props cs)
  have "sum_list (map wrappers (map (wrapNode (Some tag)) cs)) =
      sum_list (map wrappers cs) +
      length (filter (\<lambda>(q, v). q \<noteq> Some ''code'' \<and> q \<noteq> Some ''custom-typography'')
                (concat (map (textParents (Some tag)) cs)))"
    using Element by (induction cs) (auto simp: comp_def)
  then show ?case by simp
qed auto

lemma markerNodes_cong:
  assumes "list_all (\<lambda>(ds, l). \<forall>i. f ds i = g ds i) ms"
  shows "markerNodes f i ms = markerNodes g i ms"
  using assms by (induction ms arbitrary: i) auto

lemma length_markerNodes: "length (markerNodes f i ms) = length ms"
  by (induction ms arbitrary: i) auto

lemma markerPairs_cong_all:
  assumes "\<And>ds i. f ds i = g ds i"
  shows "markerPairs f i ms = markerPairs g i ms"
  by (induction ms arbitrary: i) (auto simp: assms)

section \<open>What is sanitized\<close>

text \<open>
  C1. The chunk content of a popover goes through the sanitizer: the HTML of the popover
  is the sanitizer applied to the content. The answer text does not: whatever the
  sanitizer is, a non-empty text that the three passes leave as it is reaches
  \<^verbatim>\<open>Markdown\<close> unchanged.
\<close>

theorem answer_text_reaches_markdown_unsanitized:
  assumes "str \<noteq> []"
    and "replaceTextByOldReg D str = str"
    and "replaceThinkToSection D str = str"
    and "preprocessLaTeX D str = str"
  shows "contentWithCursor (D\<lparr>sanitize := san\<rparr>) str = str
       \<and> popHtml (getPopoverContent (D\<lparr>sanitize := san\<rparr>) cb r i) =
           san (case Option.bind (chunkAt (chunksOf r) i) content of None \<Rightarrow> [] | Some s \<Rightarrow> s)"
  using assms
  by (simp add: contentWithCursor_def getPopoverContent_def getReferenceInfo_def Let_def)

theorem answer_text_reaches_markdown_unsanitized_witness:
  "contentWithCursor sampleDeps ''<img src=x onerror=alert(1)>'' = ''<img src=x onerror=alert(1)>''
   \<and> sanitize sampleDeps ''<img src=x onerror=alert(1)>'' = ''img src=x onerror=alert(1)>''
   \<and> popHtml (getPopoverContent sampleDeps True sampleReference 1) =
       ''b>bold/b>script>alert(1)/script>''"
proof -
  have a: "replaceTextByOldReg sampleDeps ''<img src=x onerror=alert(1)>'' = ''<img src=x onerror=alert(1)>''
    \<and> replaceThinkToSection sampleDeps ''<img src=x onerror=alert(1)>'' = ''<img src=x onerror=alert(1)>''
    \<and> preprocessLaTeX sampleDeps ''<img src=x onerror=alert(1)>'' = ''<img src=x onerror=alert(1)>''"
    by (simp add: sampleDeps_def)
  have b: "sampleDeps\<lparr>sanitize := sanitize sampleDeps\<rparr> = sampleDeps" by simp
  have c: "sanitize sampleDeps ''<img src=x onerror=alert(1)>'' = ''img src=x onerror=alert(1)>''"
    by code_simp
  have d: "sanitize sampleDeps
      (case Option.bind (chunkAt (chunksOf sampleReference) 1) content of None \<Rightarrow> [] | Some s \<Rightarrow> s) =
      ''b>bold/b>script>alert(1)/script>''"
    by code_simp
  show ?thesis
    using answer_text_reaches_markdown_unsanitized[of "''<img src=x onerror=alert(1)>''" sampleDeps
        "sanitize sampleDeps" True sampleReference 1] a c d
    unfolding b by simp
qed

section \<open>Markers whose index is out of range\<close>

text \<open>
  C2. A marker whose index is at least the number of chunks resolves to no chunk: every
  field of the reference information is absent (the thumbnail and the extension are the
  empty string), the popover body is empty, the node built for the marker has no image
  id, no link and no click effect, and the text around the marker is rendered in full.
\<close>

theorem marker_out_of_range_inert:
  assumes "length (chunksOf r) \<le> getChunkIndex ds"
    and "wellFormedPieces D l0 [(ds, l1)]"
  shows "getReferenceInfo D r (getChunkIndex ds) =
           \<lparr> documentUrl = None, fileThumbnail = Some [], fileExtension = [], imageId = None,
             chunkItem = None, documentId = None, document = None \<rparr>
       \<and> getPopoverContent D cb r (getChunkIndex ds) =
           \<lparr> popKey = None, popImage = None, popHtml = sanitize D [], popLink = None \<rparr>
       \<and> renderMarker D cb r ds i =
           (if showImage D None then RImage None NoEffect
            else RPopover i \<lparr> popKey = None, popImage = None, popHtml = sanitize D [],
                              popLink = None \<rparr>)
       \<and> renderReference D cb r [RText (l0 @ markerOpen D @ ds @ markerClose D @ l1)] =
           [RText l0, renderMarker D cb r ds 1, RText l1]"
proof -
  have "renderReference D cb r [RText (markedText D l0 [(ds, l1)])] =
          [RText l0, renderMarker D cb r ds 1, RText l1]"
    using renderReference_pieces[OF assms(2), of cb r] by (simp add: numeral_2_eq_2)
  then show ?thesis
    using getReferenceInfo_out_of_range[OF assms(1), of D]
      getPopoverContent_out_of_range[OF assms(1), of D cb]
      renderMarker_out_of_range[OF assms(1), of D cb i]
    by (simp add: markedText_def emptyPopover_def inertNode_def)
qed

theorem marker_out_of_range_inert_witness:
  "length (chunksOf sampleReference) \<le> getChunkIndex ''7''
   \<and> renderReference sampleDeps True sampleReference [RText ''see [ID:7] here''] =
       [RText ''see '',
        RPopover 1 \<lparr> popKey = None, popImage = None, popHtml = [], popLink = None \<rparr>,
        RText '' here'']"
proof -
  have a: "length (chunksOf sampleReference) \<le> getChunkIndex ''7''"
    by (simp add: chunksOf_def sampleReference_def sampleChunks_def getChunkIndex_def digitVal_def)
  have b: "wellFormedPieces sampleDeps ''see '' [(''7'', '' here'')]"
    by (simp add: wellFormedPieces_def sampleDeps_def isDigit_def)
  show ?thesis
    using a marker_out_of_range_inert[OF a b, of True 1]
    by (simp add: sampleDeps_def)
qed

section \<open>Markers in the text nodes of a tree\<close>

text \<open>
  C3, as the specification states it, fails: the answer \<^verbatim>\<open><div>see [ID:2]</div>\<close> holds
  one marker with a valid index outside any code region; the tree builder gives it as one
  raw node, which the transform does not visit and \<^verbatim>\<open>rehypeRaw\<close> parses afterwards, and
  the rendered tree holds the text \<^verbatim>\<open>see [ID:2]\<close> and no annotation node.
\<close>

theorem marker_in_html_block_not_annotated:
  "MarkdownContent sampleDeps samplePlugins True sampleReference ''<div>see [ID:2]</div>'' =
     Inr [RElem ''div'' [RText ''see [ID:2]'']]
   \<and> renderTree sampleDeps samplePlugins True sampleReference (Root [Raw ''<div>see [ID:2]</div>'']) =
     Inr [RElem ''div'' [RText ''see [ID:2]'']]
   \<and> piecesOf sampleDeps ''see [ID:2]'' = (''see '', [(''2'', [])])
   \<and> getChunkIndex ''2'' < length (chunksOf sampleReference)
   \<and> \<not> markerFree sampleDeps ''see [ID:2]''
   \<and> annotationsOf [RElem ''div'' [RText ''see [ID:2]'']] = []"
  by code_simp

text \<open>
  C3, amended. Let the tree hold no raw node and no custom-typography element, let
  \<^verbatim>\<open>rehypeKatex\<close> and \<^verbatim>\<open>rehypeRaw\<close> leave the transformed tree as it is, and let every
  marker in the processed text nodes (those whose parent is not a code element and that
  do not lie under a code element with a language class) have a valid index. Then the
  tree, and with it every answer text that the parser turns into this tree, is rendered
  as the render of the transformed tree; the annotation nodes of the rendered tree are,
  in document order, one node for each of these markers, the node of the chunk at the index read from the marker; their number is
  the number of these markers; and no marker starts in any rendered text outside the
  direct children of code elements. The markers of a text are the ones its decomposition
  into pieces holds, which is the given one for well-formed pieces, and the index read
  from the decimal numeral of n is n.
\<close>

theorem valid_markers_annotated_in_tree:
  assumes "wrapTextTransform tree = Inr wrapped"
    and "noWrapper tree"
    and "rawFree tree"
    and "rehypeRaw P (rehypeKatex P wrapped) = wrapped"
    and "list_all (\<lambda>v. list_all (\<lambda>(ds, l). getChunkIndex ds < length (chunksOf r))
                              (snd (piecesOf D v)))
           (processedTexts None tree)"
  shows "renderTree D P cb r tree = Inr (renderNode D cb r wrapped)
       \<and> (parseMarkdown P (contentWithCursor D content_in) = tree \<longrightarrow>
            MarkdownContent D P cb r content_in = Inr (renderNode D cb r wrapped))
       \<and> annotationsOf (renderNode D cb r wrapped) =
           concat (map (\<lambda>v. markerNodes
                               (\<lambda>ds i. chunkNode D cb r (chunksOf r ! getChunkIndex ds) i)
                               1 (snd (piecesOf D v)))
                       (processedTexts None tree))
       \<and> length (annotationsOf (renderNode D cb r wrapped)) =
           sum_list (map (\<lambda>v. length (snd (piecesOf D v))) (processedTexts None tree))
       \<and> list_all (markerFree D) (outsideTextsOf False (renderNode D cb r wrapped))
       \<and> (\<forall>v. v = markedText D (fst (piecesOf D v)) (snd (piecesOf D v))
              \<and> markerFree D (fst (piecesOf D v))
              \<and> list_all (\<lambda>(ds, l). ds \<noteq> [] \<and> list_all isDigit ds \<and> markerFree D l)
                   (snd (piecesOf D v)))
       \<and> (wellFormedPieces D l0 ms \<longrightarrow> piecesOf D (markedText D l0 ms) = (l0, ms))
       \<and> (\<forall>n. getChunkIndex (decimal n) = n)"
proof -
  have w: "wrapped = wrapNode None tree"
    using assms(1) by (auto simp: wrapTextTransform_def split: hast.splits)
  have run: "renderTree D P cb r tree = Inr (renderNode D cb r wrapped)"
    using assms(1,4) by (simp add: renderTree_def)
  have md: "parseMarkdown P (contentWithCursor D content_in) = tree \<longrightarrow>
      MarkdownContent D P cb r content_in = Inr (renderNode D cb r wrapped)"
    using run by (auto simp: MarkdownContent_def)
  have ann0: "annotationsOf (renderNode D cb r wrapped) =
      concat (map (\<lambda>v. markerNodes (renderMarker D cb r) 1 (snd (piecesOf D v)))
                  (processedTexts None tree))"
    unfolding w by (rule tree_annotations[OF assms(2)]) simp
  have each: "\<And>v. v \<in> set (processedTexts None tree) \<Longrightarrow>
      markerNodes (renderMarker D cb r) 1 (snd (piecesOf D v)) =
      markerNodes (\<lambda>ds i. chunkNode D cb r (chunksOf r ! getChunkIndex ds) i) 1 (snd (piecesOf D v))"
  proof (rule markerNodes_cong)
    fix v assume "v \<in> set (processedTexts None tree)"
    then have "list_all (\<lambda>(ds, l). getChunkIndex ds < length (chunksOf r)) (snd (piecesOf D v))"
      using assms(5) by (auto simp: list_all_iff)
    then show "list_all (\<lambda>(ds, l). \<forall>i. renderMarker D cb r ds i =
        chunkNode D cb r (chunksOf r ! getChunkIndex ds) i) (snd (piecesOf D v))"
      by (auto simp: list_all_iff renderMarker_valid)
  qed
  have ann: "annotationsOf (renderNode D cb r wrapped) =
      concat (map (\<lambda>v. markerNodes (\<lambda>ds i. chunkNode D cb r (chunksOf r ! getChunkIndex ds) i)
                          1 (snd (piecesOf D v)))
                  (processedTexts None tree))"
    unfolding ann0 using each by (rule concat_map_cong_set)
  have cnt: "length (annotationsOf (renderNode D cb r wrapped)) =
      sum_list (map (\<lambda>v. length (snd (piecesOf D v))) (processedTexts None tree))"
    unfolding ann by (simp add: sum_list_concat_len comp_def length_markerNodes)
  have free: "list_all (markerFree D) (outsideTextsOf False (renderNode D cb r wrapped))"
    unfolding w using tree_outside_texts[OF assms(2), of None D cb r] by simp
  have dec: "\<forall>v. v = markedText D (fst (piecesOf D v)) (snd (piecesOf D v))
              \<and> markerFree D (fst (piecesOf D v))
              \<and> list_all (\<lambda>(ds, l). ds \<noteq> [] \<and> list_all isDigit ds \<and> markerFree D l)
                   (snd (piecesOf D v))"
    using piecesOf_decomposes by blast
  have uniq: "wellFormedPieces D l0 ms \<longrightarrow> piecesOf D (markedText D l0 ms) = (l0, ms)"
    using piecesOf_markedText by blast
  have num: "\<forall>n. getChunkIndex (decimal n) = n" by (simp add: getChunkIndex_decimal)
  from run md ann cnt free dec uniq num show ?thesis by blast
qed

theorem valid_markers_annotated_in_tree_witness:
  "wrapTextTransform sampleTree = Inr sampleWrapped
   \<and> noWrapper sampleTree
   \<and> rawFree sampleTree
   \<and> rehypeRaw samplePlugins (rehypeKatex samplePlugins sampleWrapped) = sampleWrapped
   \<and> processedTexts None sampleTree = [''See [ID:0] and [ID:2].'']
   \<and> wellFormedPieces sampleDeps ''See '' [(''0'', '' and ''), (''2'', ''.'')]
   \<and> markedText sampleDeps ''See '' [(''0'', '' and ''), (''2'', ''.'')] = ''See [ID:0] and [ID:2].''
   \<and> piecesOf sampleDeps ''See [ID:0] and [ID:2].'' = (''See '', [(''0'', '' and ''), (''2'', ''.'')])
   \<and> getChunkIndex ''0'' < length (chunksOf sampleReference)
   \<and> getChunkIndex ''2'' < length (chunksOf sampleReference)
   \<and> renderTree sampleDeps samplePlugins True sampleReference sampleTree =
       Inr [RElem ''p''
              [RText ''See '',
               RImage (Some ''img1'') NoEffect,
               RText '' and '',
               RPopover 3 \<lparr> popKey = Some ''c2'', popImage = None, popHtml = ''notes'',
                             popLink = Some \<lparr> linkIcon = Inr ''file-icon/txt'',
                                              linkOnClick = NoEffect,
                                              linkLabel = Some ''notes.txt'' \<rparr> \<rparr>,
               RText ''.''],
            RElem ''pre'' [RHighlighter ''js'' ''x[ID:1]'']]
   \<and> annotationsOf (renderNode sampleDeps True sampleReference sampleWrapped) =
       [chunkNode sampleDeps True sampleReference (sampleChunks ! 0) 1,
        chunkNode sampleDeps True sampleReference (sampleChunks ! 2) 3]
   \<and> length (annotationsOf (renderNode sampleDeps True sampleReference sampleWrapped)) = 2
   \<and> parseMarkdown samplePlugins (contentWithCursor sampleDeps ''See [ID:0] and [ID:2].'') =
       Root [Element ''p'' [] [Text ''See [ID:0] and [ID:2].'']]
   \<and> MarkdownContent sampleDeps samplePlugins True sampleReference ''See [ID:0] and [ID:2].'' =
       Inr [RElem ''p''
              [RText ''See '',
               RImage (Some ''img1'') NoEffect,
               RText '' and '',
               RPopover 3 \<lparr> popKey = Some ''c2'', popImage = None, popHtml = ''notes'',
                             popLink = Some \<lparr> linkIcon = Inr ''file-icon/txt'',
                                              linkOnClick = NoEffect,
                                              linkLabel = Some ''notes.txt'' \<rparr> \<rparr>,
               RText ''.'']]"
proof -
  have h1: "wrapTextTransform sampleTree = Inr sampleWrapped" by code_simp
  have h2: "noWrapper sampleTree" by code_simp
  have hr: "rawFree sampleTree" by code_simp
  have h3: "rehypeRaw samplePlugins (rehypeKatex samplePlugins sampleWrapped) = sampleWrapped"
    by code_simp
  have pt: "processedTexts None sampleTree = [''See [ID:0] and [ID:2].'']" by code_simp
  have wf: "wellFormedPieces sampleDeps ''See '' [(''0'', '' and ''), (''2'', ''.'')]"
    by (simp add: wellFormedPieces_def sampleDeps_def isDigit_def)
  have mt: "markedText sampleDeps ''See '' [(''0'', '' and ''), (''2'', ''.'')] =
      ''See [ID:0] and [ID:2].''"
    by (simp add: markedText_def sampleDeps_def)
  have pc0: "piecesOf sampleDeps ''See [ID:0] and [ID:2].'' =
      (''See '', [(''0'', '' and ''), (''2'', ''.'')])" by code_simp
  have v0: "getChunkIndex ''0'' < length (chunksOf sampleReference)" by code_simp
  have v2: "getChunkIndex ''2'' < length (chunksOf sampleReference)" by code_simp
  have i0: "chunksOf sampleReference ! getChunkIndex ''0'' = sampleChunks ! 0" by code_simp
  have i2: "chunksOf sampleReference ! getChunkIndex ''2'' = sampleChunks ! 2" by code_simp
  have h4: "list_all (\<lambda>v. list_all (\<lambda>(ds, l). getChunkIndex ds < length (chunksOf sampleReference))
                              (snd (piecesOf sampleDeps v)))
           (processedTexts None sampleTree)"
    unfolding pt using v0 v2 by (simp add: pc0)
  have out: "renderNode sampleDeps True sampleReference sampleWrapped =
       [RElem ''p''
              [RText ''See '',
               RImage (Some ''img1'') NoEffect,
               RText '' and '',
               RPopover 3 \<lparr> popKey = Some ''c2'', popImage = None, popHtml = ''notes'',
                             popLink = Some \<lparr> linkIcon = Inr ''file-icon/txt'',
                                              linkOnClick = NoEffect,
                                              linkLabel = Some ''notes.txt'' \<rparr> \<rparr>,
               RText ''.''],
            RElem ''pre'' [RHighlighter ''js'' ''x[ID:1]'']]"
    by code_simp
  have three: "Suc (Suc (Suc 0)) = 3" by simp
  note th = valid_markers_annotated_in_tree[OF h1 h2 hr h3 h4, where cb = True
      and ?l0.0 = "''See ''" and ms = "[(''0'', '' and ''), (''2'', ''.'')]"]
  have pc: "piecesOf sampleDeps ''See [ID:0] and [ID:2].'' =
      (''See '', [(''0'', '' and ''), (''2'', ''.'')])"
    using th wf unfolding mt by blast
  have run: "renderTree sampleDeps samplePlugins True sampleReference sampleTree =
      Inr (renderNode sampleDeps True sampleReference sampleWrapped)"
    using th by blast
  have ann: "annotationsOf (renderNode sampleDeps True sampleReference sampleWrapped) =
       [chunkNode sampleDeps True sampleReference (sampleChunks ! 0) 1,
        chunkNode sampleDeps True sampleReference (sampleChunks ! 2) 3]"
    using th unfolding pt by (simp add: pc i0 i2 numeral_2_eq_2 three)
  have cnt: "length (annotationsOf (renderNode sampleDeps True sampleReference sampleWrapped)) = 2"
    using th unfolding pt by (simp add: pc)
  have g1: "wrapTextTransform (Root [Element ''p'' [] [Text ''See [ID:0] and [ID:2].'']]) =
      Inr (Root [Element ''p'' []
                   [Element ''custom-typography'' [] [Text ''See [ID:0] and [ID:2].'']]])"
    by code_simp
  have g2: "noWrapper (Root [Element ''p'' [] [Text ''See [ID:0] and [ID:2].'']])" by code_simp
  have gr: "rawFree (Root [Element ''p'' [] [Text ''See [ID:0] and [ID:2].'']])" by code_simp
  have g3: "rehypeRaw samplePlugins (rehypeKatex samplePlugins
        (Root [Element ''p'' []
                 [Element ''custom-typography'' [] [Text ''See [ID:0] and [ID:2].'']]])) =
      Root [Element ''p'' []
              [Element ''custom-typography'' [] [Text ''See [ID:0] and [ID:2].'']]]"
    by code_simp
  have pt2: "processedTexts None (Root [Element ''p'' [] [Text ''See [ID:0] and [ID:2].'']]) =
      [''See [ID:0] and [ID:2].'']" by code_simp
  have g4: "list_all (\<lambda>v. list_all (\<lambda>(ds, l). getChunkIndex ds < length (chunksOf sampleReference))
                              (snd (piecesOf sampleDeps v)))
           (processedTexts None (Root [Element ''p'' [] [Text ''See [ID:0] and [ID:2].'']]))"
    unfolding pt2 using v0 v2 by (simp add: pc0)
  have pm: "parseMarkdown samplePlugins (contentWithCursor sampleDeps ''See [ID:0] and [ID:2].'') =
      Root [Element ''p'' [] [Text ''See [ID:0] and [ID:2].'']]" by code_simp
  have out2: "renderNode sampleDeps True sampleReference
        (Root [Element ''p'' []
                 [Element ''custom-typography'' [] [Text ''See [ID:0] and [ID:2].'']]]) =
       [RElem ''p''
              [RText ''See '',
               RImage (Some ''img1'') NoEffect,
               RText '' and '',
               RPopover 3 \<lparr> popKey = Some ''c2'', popImage = None, popHtml = ''notes'',
                             popLink = Some \<lparr> linkIcon = Inr ''file-icon/txt'',
                                              linkOnClick = NoEffect,
                                              linkLabel = Some ''notes.txt'' \<rparr> \<rparr>,
               RText ''.'']]"
    by code_simp
  have md: "MarkdownContent sampleDeps samplePlugins True sampleReference ''See [ID:0] and [ID:2].'' =
      Inr (renderNode sampleDeps True sampleReference
        (Root [Element ''p'' []
                 [Element ''custom-typography'' [] [Text ''See [ID:0] and [ID:2].'']]]))"
    using valid_markers_annotated_in_tree[OF g1 g2 gr g3 g4, where cb = True
      and content_in = "''See [ID:0] and [ID:2].''"] pm by blast
  from h1 h2 hr h3 pt wf mt pc v0 v2 run out ann cnt pm md[unfolded out2] show ?thesis by simp
qed

section \<open>Which text nodes the transform wraps\<close>

lemma wrapNode_texts: "map (wrapNode (Some ''code'')) (map Text vs) = map Text vs"
  by (induction vs) auto

lemma renderNode_texts: "concat (map (renderNode D cb r) (map Text vs)) = map RText vs"
  by (induction vs) auto

lemma annotations_texts: "concat (map annotations (map RText vs)) = []"
  by (induction vs) auto

text \<open>
  C4, as the specification states it, fails: in the answer \<^verbatim>\<open><code>[ID:2]</code>\<close> the
  marker lies inside a code region. The tree builder gives a paragraph with the two tags
  as raw nodes around a text node; the parent of the text node is the paragraph, so the
  transform wraps it; \<^verbatim>\<open>rehypeRaw\<close> then builds the code element around the wrapper, and
  the marker is rendered as a popover inside the code element.
\<close>

theorem marker_in_raw_code_is_annotated:
  "MarkdownContent sampleDeps samplePlugins True sampleReference ''<code>[ID:2]</code>'' =
     Inr [RElem ''p''
            [RElem ''code''
               [RText [],
                RPopover 1 \<lparr> popKey = Some ''c2'', popImage = None, popHtml = ''notes'',
                              popLink = Some \<lparr> linkIcon = Inr ''file-icon/txt'',
                                               linkOnClick = NoEffect,
                                               linkLabel = Some ''notes.txt'' \<rparr> \<rparr>,
                RText []]]]
   \<and> wrapTextTransform (Root [Element ''p'' [] [Raw ''<code>'', Text ''[ID:2]'', Raw ''</code>'']]) =
       Inr (Root [Element ''p'' []
                    [Raw ''<code>'', Element ''custom-typography'' [] [Text ''[ID:2]''],
                     Raw ''</code>'']])
   \<and> renderTree sampleDeps samplePlugins True sampleReference
         (Root [Element ''p'' [] [Raw ''<code>'', Text ''[ID:2]'', Raw ''</code>'']]) =
       Inr [RElem ''p''
            [RElem ''code''
               [RText [],
                RPopover 1 \<lparr> popKey = Some ''c2'', popImage = None, popHtml = ''notes'',
                              popLink = Some \<lparr> linkIcon = Inr ''file-icon/txt'',
                                               linkOnClick = NoEffect,
                                               linkLabel = Some ''notes.txt'' \<rparr> \<rparr>,
                RText []]]]"
  by code_simp

text \<open>
  C4, amended. The transform decides from the parent of a text node alone, at every
  depth of the tree it receives: the text nodes of the transformed tree are those of the
  tree, in order, each under its old parent if that is a code or custom-typography
  element and under a custom-typography wrapper otherwise, and one wrapper is added for
  each of the latter. A code element whose children are text nodes is unchanged, and no
  annotation node is rendered for it. A text node that is the child of a
  custom-typography element is not wrapped again and is rendered once through
  \<open>renderReference\<close>. A text node below another element inside a code element is
  wrapped; it is rendered through \<open>renderReference\<close>, inside that element, when the code
  element has no language class, and the highlighter shows the string
  \<^verbatim>\<open>[object Object]\<close> in its place when the code element has one.
\<close>

theorem transform_wraps_by_parent:
  "textParents p (wrapNode p t) =
     map (\<lambda>(q, v). (if q = Some ''code'' \<or> q = Some ''custom-typography'' then q
                     else Some ''custom-typography'', v))
         (textParents p t)
   \<and> wrappers (wrapNode p t) =
       wrappers t + length (filter (\<lambda>(q, v). q \<noteq> Some ''code'' \<and> q \<noteq> Some ''custom-typography'')
                                   (textParents p t))
   \<and> wrapNode p (Element ''code'' props (map Text vs)) = Element ''code'' props (map Text vs)
   \<and> annotationsOf (renderNode D cb r (wrapNode p (Element ''code'' props (map Text vs)))) = []
   \<and> wrapNode p (Element ''custom-typography'' props [Text str]) =
       Element ''custom-typography'' props [Text str]
   \<and> renderNode D cb r (wrapNode p (Element ''custom-typography'' props [Text str])) =
       renderReference D cb r [RText str]
   \<and> (tag \<noteq> ''code'' \<and> tag \<noteq> ''custom-typography'' \<longrightarrow>
        wrapNode p (Element ''code'' props [Element tag ps [Text str]]) =
          Element ''code'' props [Element tag ps [Element ''custom-typography'' [] [Text str]]])
   \<and> (tag \<noteq> ''code'' \<and> tag \<noteq> ''custom-typography'' \<and> languageOf props = None \<longrightarrow>
        renderNode D cb r (wrapNode p (Element ''code'' props [Element tag ps [Text str]])) =
          [RElem ''code''
             (if tag = ''table''
              then [RElem ''div'' [RElem ''table'' (renderReference D cb r [RText str])]]
              else [RElem tag (renderReference D cb r [RText str])])])
   \<and> (tag \<noteq> ''code'' \<and> tag \<noteq> ''custom-typography'' \<and> languageOf props = Some lang \<longrightarrow>
        renderNode D cb r (wrapNode p (Element ''code'' props [Element tag ps [Text str]])) =
          [RHighlighter lang ''[object Object]''])"
proof -
  have a: "wrapNode p (Element ''code'' props (map Text vs)) = Element ''code'' props (map Text vs)"
    by (simp add: wrapNode_texts)
  have b: "annotationsOf (renderNode D cb r (wrapNode p (Element ''code'' props (map Text vs)))) = []"
    by (cases "languageOf props")
       (simp_all add: wrapNode_texts renderNode_texts annotations_texts annotationsOf_def)
  have c: "tag \<noteq> ''code'' \<and> tag \<noteq> ''custom-typography'' \<and> languageOf props = Some lang \<longrightarrow>
        renderNode D cb r (wrapNode p (Element ''code'' props [Element tag ps [Text str]])) =
          [RHighlighter lang ''[object Object]'']"
    by (cases "tag = ''table''") (simp_all add: jsString_def dropTrailingNewline_def Let_def)
  show ?thesis
    using textParents_wrapNode[of p t] wrappers_wrapNode[of p t] a b c by simp
qed

theorem transform_wraps_by_parent_witness:
  "textParents None sampleTree = [(Some ''p'', ''See [ID:0] and [ID:2].''), (Some ''code'', ''x[ID:1]'')]
   \<and> textParents None (wrapNode None sampleTree) =
       [(Some ''custom-typography'', ''See [ID:0] and [ID:2].''), (Some ''code'', ''x[ID:1]'')]
   \<and> wrappers sampleTree = 0
   \<and> wrappers (wrapNode None sampleTree) = 1
   \<and> wrapNode (Some ''pre'') (Element ''code'' [] [Text ''[ID:2]'']) = Element ''code'' [] [Text ''[ID:2]'']
   \<and> renderNode sampleDeps True sampleReference
        (wrapNode (Some ''pre'') (Element ''code'' [] [Text ''[ID:2]''])) = [RElem ''code'' [RText ''[ID:2]'']]
   \<and> wrapNode (Some ''pre'') (Element ''code'' [] [Element ''span'' [] [Text ''[ID:2]'']]) =
       Element ''code'' [] [Element ''span'' [] [Element ''custom-typography'' [] [Text ''[ID:2]'']]]
   \<and> renderNode sampleDeps True sampleReference
        (wrapNode (Some ''pre'') (Element ''code'' [] [Element ''span'' [] [Text ''[ID:2]'']])) =
       [RElem ''code''
          [RElem ''span''
             [RText [],
              RPopover 1 \<lparr> popKey = Some ''c2'', popImage = None, popHtml = ''notes'',
                            popLink = Some \<lparr> linkIcon = Inr ''file-icon/txt'',
                                             linkOnClick = NoEffect,
                                             linkLabel = Some ''notes.txt'' \<rparr> \<rparr>,
              RText []]]]
   \<and> renderNode sampleDeps True sampleReference
        (wrapNode (Some ''pre'')
           (Element ''code'' [(''className'', ''language-js'')] [Element ''span'' [] [Text ''[ID:2]'']])) =
       [RHighlighter ''js'' ''[object Object]'']
   \<and> renderNode sampleDeps True sampleReference
        (wrapNode (Some ''p'') (Element ''custom-typography'' [] [Text ''[ID:2]''])) =
       [RText [],
        RPopover 1 \<lparr> popKey = Some ''c2'', popImage = None, popHtml = ''notes'',
                      popLink = Some \<lparr> linkIcon = Inr ''file-icon/txt'',
                                       linkOnClick = NoEffect,
                                       linkLabel = Some ''notes.txt'' \<rparr> \<rparr>,
        RText []]"
proof -
  have tp: "textParents None sampleTree =
      [(Some ''p'', ''See [ID:0] and [ID:2].''), (Some ''code'', ''x[ID:1]'')]" by code_simp
  have w0: "wrappers sampleTree = 0" by code_simp
  have l1: "languageOf [] = None" by code_simp
  have l2: "languageOf [(''className'', ''language-js'')] = Some ''js''" by code_simp
  have r1: "renderNode sampleDeps True sampleReference (Element ''code'' [] [Text ''[ID:2]'']) =
      [RElem ''code'' [RText ''[ID:2]'']]" by code_simp
  note th1 = transform_wraps_by_parent[of None sampleTree "[]" "[''[ID:2]'']" sampleDeps True
      sampleReference "''[ID:2]''" "''span''" "[]" "''js''"]
  note th2 = transform_wraps_by_parent[of "Some ''pre''" sampleTree "[]" "[''[ID:2]'']" sampleDeps True
      sampleReference "''[ID:2]''" "''span''" "[]" "''js''"]
  note th3 = transform_wraps_by_parent[of "Some ''pre''" sampleTree "[(''className'', ''language-js'')]"
      "[''[ID:2]'']" sampleDeps True sampleReference "''[ID:2]''" "''span''" "[]" "''js''"]
  have a: "textParents None (wrapNode None sampleTree) =
       [(Some ''custom-typography'', ''See [ID:0] and [ID:2].''), (Some ''code'', ''x[ID:1]'')]"
    using th1 unfolding tp by simp
  have b: "wrappers (wrapNode None sampleTree) = 1"
    using th1 unfolding tp w0 by simp
  have c: "wrapNode (Some ''pre'') (Element ''code'' [] [Text ''[ID:2]'']) =
      Element ''code'' [] [Text ''[ID:2]'']"
    using th2 by simp
  have d: "wrapNode (Some ''pre'') (Element ''code'' [] [Element ''span'' [] [Text ''[ID:2]'']]) =
       Element ''code'' [] [Element ''span'' [] [Element ''custom-typography'' [] [Text ''[ID:2]'']]]"
    using th2 by simp
  have e: "renderNode sampleDeps True sampleReference
        (wrapNode (Some ''pre'')
           (Element ''code'' [(''className'', ''language-js'')] [Element ''span'' [] [Text ''[ID:2]'']])) =
       [RHighlighter ''js'' ''[object Object]'']"
    using th3 l2 by simp
  have rr: "renderReference sampleDeps True sampleReference [RText ''[ID:2]''] =
       [RText [],
        RPopover 1 \<lparr> popKey = Some ''c2'', popImage = None, popHtml = ''notes'',
                      popLink = Some \<lparr> linkIcon = Inr ''file-icon/txt'',
                                       linkOnClick = NoEffect,
                                       linkLabel = Some ''notes.txt'' \<rparr> \<rparr>,
        RText []]" by code_simp
  have f: "renderNode sampleDeps True sampleReference
        (wrapNode (Some ''pre'') (Element ''code'' [] [Element ''span'' [] [Text ''[ID:2]'']])) =
       [RElem ''code'' [RElem ''span'' (renderReference sampleDeps True sampleReference [RText ''[ID:2]''])]]"
    using th2 l1 by simp
  have g: "renderNode sampleDeps True sampleReference
        (wrapNode (Some ''p'') (Element ''custom-typography'' [] [Text ''[ID:2]''])) =
       renderReference sampleDeps True sampleReference [RText ''[ID:2]'']"
    using transform_wraps_by_parent[of "Some ''p''" sampleTree "[]" "[''[ID:2]'']" sampleDeps True
      sampleReference "''[ID:2]''" "''span''" "[]" "''js''"] by simp
  from tp a w0 b c d e r1 f[unfolded rr] g[unfolded rr] show ?thesis by simp
qed

section \<open>Markers with an invalid index are replaced, not kept\<close>

text \<open>
  C5, as the specification states it, fails: the marker with index 7 of a text rendered
  against five chunks does not stay in the output as text; an empty popover stands in its
  place.
\<close>

theorem invalid_marker_not_left_as_text:
  "renderReference sampleDeps True sampleReference [RText ''see [ID:7] here''] =
     [RText ''see '',
      RPopover 1 \<lparr> popKey = None, popImage = None, popHtml = [], popLink = None \<rparr>,
      RText '' here'']
   \<and> renderReference sampleDeps True sampleReference [RText ''see [ID:7] here''] \<noteq>
     [RText ''see [ID:7] here'']"
proof -
  have a: "length (chunksOf sampleReference) \<le> getChunkIndex ''7''"
    by (simp add: chunksOf_def sampleReference_def sampleChunks_def getChunkIndex_def digitVal_def)
  have b: "wellFormedPieces sampleDeps ''see '' [(''7'', '' here'')]"
    by (simp add: wellFormedPieces_def sampleDeps_def isDigit_def)
  have "renderReference sampleDeps True sampleReference
          [RText (markedText sampleDeps ''see '' [(''7'', '' here'')])] =
        [RText ''see '', inertNode sampleDeps 1, RText '' here'']"
    using renderReference_pieces[OF b, of True sampleReference] renderMarker_out_of_range[OF a]
    by simp
  then show ?thesis
    by (simp add: markedText_def inertNode_def emptyPopover_def sampleDeps_def)
qed

text \<open>
  C5, amended. In every text, every marker whose index is out of range is replaced by an
  annotation node like any other marker: the popover with empty content, or the image
  with no id and no click effect where \<open>showImage\<close> holds of an absent doc type; a marker
  with a valid index is replaced by the node of its chunk. The rendered list is the
  literal pieces of the text with these nodes between them, the pieces and markers make
  up the text, and no marker starts in a literal piece.
\<close>

theorem invalid_markers_replaced:
  "renderReference D cb r [RText str] =
     RText (fst (piecesOf D str)) #
     markerPairs (\<lambda>ds i. if length (chunksOf r) \<le> getChunkIndex ds
                          then (if showImage D None then RImage None NoEffect
                                else RPopover i \<lparr> popKey = None, popImage = None,
                                       popHtml = sanitize D [], popLink = None \<rparr>)
                          else chunkNode D cb r (chunksOf r ! getChunkIndex ds) i)
       1 (snd (piecesOf D str))
   \<and> str = markedText D (fst (piecesOf D str)) (snd (piecesOf D str))
   \<and> markerFree D (fst (piecesOf D str))
   \<and> list_all (\<lambda>(ds, l). ds \<noteq> [] \<and> list_all isDigit ds \<and> markerFree D l) (snd (piecesOf D str))"
proof -
  have "\<And>ds i. renderMarker D cb r ds i =
      (if length (chunksOf r) \<le> getChunkIndex ds
       then (if showImage D None then RImage None NoEffect
             else RPopover i \<lparr> popKey = None, popImage = None,
                    popHtml = sanitize D [], popLink = None \<rparr>)
       else chunkNode D cb r (chunksOf r ! getChunkIndex ds) i)"
    by (simp add: renderMarker_out_of_range renderMarker_valid inertNode_def emptyPopover_def)
  then have "markerPairs (renderMarker D cb r) 1 (snd (piecesOf D str)) =
      markerPairs (\<lambda>ds i. if length (chunksOf r) \<le> getChunkIndex ds
                          then (if showImage D None then RImage None NoEffect
                                else RPopover i \<lparr> popKey = None, popImage = None,
                                       popHtml = sanitize D [], popLink = None \<rparr>)
                          else chunkNode D cb r (chunksOf r ! getChunkIndex ds) i)
       1 (snd (piecesOf D str))"
    by (rule markerPairs_cong_all)
  then show ?thesis
    using renderReference_piecesOf[of D cb r str] piecesOf_decomposes[of str D] by simp
qed

theorem invalid_markers_replaced_witness:
  "piecesOf sampleDeps ''[x] [ID:7]'' = (''[x] '', [(''7'', [])])
   \<and> renderReference sampleDeps True sampleReference [RText ''[x] [ID:7]''] =
       [RText ''[x] '',
        RPopover 1 \<lparr> popKey = None, popImage = None, popHtml = [], popLink = None \<rparr>,
        RText []]
   \<and> piecesOf sampleDeps ''See [ID:0] and [ID:12].'' = (''See '', [(''0'', '' and ''), (''12'', ''.'')])
   \<and> renderReference sampleDeps True sampleReference [RText ''See [ID:0] and [ID:12].''] =
       [RText ''See '',
        RImage (Some ''img1'') NoEffect,
        RText '' and '',
        RPopover 3 \<lparr> popKey = None, popImage = None, popHtml = [], popLink = None \<rparr>,
        RText ''.'']
   \<and> markerFree sampleDeps ''[x] '' \<and> markerFree sampleDeps ''See ''"
proof -
  have p1: "piecesOf sampleDeps ''[x] [ID:7]'' = (''[x] '', [(''7'', [])])" by code_simp
  have p2: "piecesOf sampleDeps ''See [ID:0] and [ID:12].'' =
      (''See '', [(''0'', '' and ''), (''12'', ''.'')])" by code_simp
  have n7: "length (chunksOf sampleReference) \<le> getChunkIndex ''7''" by code_simp
  have n12: "length (chunksOf sampleReference) \<le> getChunkIndex ''12''" by code_simp
  have n0: "\<not> length (chunksOf sampleReference) \<le> getChunkIndex ''0''" by code_simp
  have c0: "chunkNode sampleDeps True sampleReference
      (chunksOf sampleReference ! getChunkIndex ''0'') (Suc 0) = RImage (Some ''img1'') NoEffect"
    by code_simp
  have s0: "sanitize sampleDeps [] = []" "\<not> showImage sampleDeps None" by code_simp+
  have three: "Suc (Suc (Suc 0)) = 3" by simp
  note t1 = invalid_markers_replaced[of sampleDeps True sampleReference "''[x] [ID:7]''"]
  note t2 = invalid_markers_replaced[of sampleDeps True sampleReference "''See [ID:0] and [ID:12].''"]
  have o1: "renderReference sampleDeps True sampleReference [RText ''[x] [ID:7]''] =
       [RText ''[x] '',
        RPopover 1 \<lparr> popKey = None, popImage = None, popHtml = [], popLink = None \<rparr>,
        RText []]"
    using t1[THEN conjunct1] unfolding p1 by (simp add: n7 s0)
  have o2: "renderReference sampleDeps True sampleReference [RText ''See [ID:0] and [ID:12].''] =
       [RText ''See '',
        RImage (Some ''img1'') NoEffect,
        RText '' and '',
        RPopover 3 \<lparr> popKey = None, popImage = None, popHtml = [], popLink = None \<rparr>,
        RText ''.'']"
    using t2[THEN conjunct1] unfolding p2 by (simp add: n12 n0 c0 s0 numeral_2_eq_2 three)
  have f1: "markerFree sampleDeps ''[x] ''"
    using t1[THEN conjunct2, THEN conjunct2, THEN conjunct1] unfolding p1 by simp
  have f2: "markerFree sampleDeps ''See ''"
    using t2[THEN conjunct2, THEN conjunct2, THEN conjunct1] unfolding p2 by simp
  from p1 o1 p2 o2 f1 f2 show ?thesis by simp
qed

section \<open>Inline image or popover\<close>

text \<open>
  C6. Whether a marker is rendered as the inline image is the value of \<open>showImage\<close> at
  the doc type of the chunk and depends on nothing else: if it holds, the node is the
  image with the image id of the chunk, otherwise it is the popover with the popover
  content of the index. Where \<open>showImage\<close> holds of the type \<^verbatim>\<open>image\<close>, a chunk with that
  doc type and the image id \<^verbatim>\<open>img1\<close> gives the image with id \<^verbatim>\<open>img1\<close> and no popover.
\<close>

theorem render_mode_by_doc_type:
  "isInlineMedia (renderMarker D cb r m i) =
     showImage D (Option.bind (chunkAt (chunksOf r) (getChunkIndex m)) doc_type)
   \<and> (showImage D (Option.bind (chunkAt (chunksOf r) (getChunkIndex m)) doc_type) \<longrightarrow>
        (\<exists>e. renderMarker D cb r m i =
               RImage (Option.bind (chunkAt (chunksOf r) (getChunkIndex m)) image_id) e))
   \<and> (\<not> showImage D (Option.bind (chunkAt (chunksOf r) (getChunkIndex m)) doc_type) \<longrightarrow>
        renderMarker D cb r m i = RPopover i (getPopoverContent D cb r (getChunkIndex m)))
   \<and> (showImage D (Some ''image'') \<and> chunkAt (chunksOf r) (getChunkIndex m) = Some c \<and>
        doc_type c = Some ''image'' \<and> image_id c = Some ''img1'' \<longrightarrow>
        (\<exists>e. renderMarker D cb r m i = RImage (Some ''img1'') e) \<and>
        (\<forall>p. renderMarker D cb r m i \<noteq> RPopover i p))"
  by (auto simp: renderMarker_def getReferenceInfo_def Let_def)

theorem render_mode_by_doc_type_witness:
  "showImage sampleDeps (Some ''image'')
   \<and> chunkAt (chunksOf sampleReference) (getChunkIndex ''0'') = Some (sampleChunks ! 0)
   \<and> doc_type (sampleChunks ! 0) = Some ''image''
   \<and> image_id (sampleChunks ! 0) = Some ''img1''
   \<and> renderMarker sampleDeps True sampleReference ''0'' 1 = RImage (Some ''img1'') NoEffect
   \<and> isInlineMedia (renderMarker sampleDeps True sampleReference ''0'' 1)
   \<and> \<not> showImage sampleDeps (Option.bind (chunkAt (chunksOf sampleReference) (getChunkIndex ''3'')) doc_type)
   \<and> renderMarker sampleDeps True sampleReference ''3'' 1 =
       RPopover 1 (getPopoverContent sampleDeps True sampleReference 3)"
proof -
  have s: "showImage sampleDeps (Some ''image'')" by (simp add: sampleDeps_def)
  have c: "chunkAt (chunksOf sampleReference) (getChunkIndex ''0'') = Some (sampleChunks ! 0)"
    by code_simp
  have d: "doc_type (sampleChunks ! 0) = Some ''image''" by code_simp
  have im: "image_id (sampleChunks ! 0) = Some ''img1''" by code_simp
  have rm: "renderMarker sampleDeps True sampleReference ''0'' 1 = RImage (Some ''img1'') NoEffect"
    by code_simp
  have n: "\<not> showImage sampleDeps (Option.bind (chunkAt (chunksOf sampleReference) (getChunkIndex ''3'')) doc_type)"
    by code_simp
  have i3: "getChunkIndex ''3'' = 3" by code_simp
  have media: "isInlineMedia (renderMarker sampleDeps True sampleReference ''0'' 1)"
    using render_mode_by_doc_type[of sampleDeps True sampleReference "''0''" 1 "sampleChunks ! 0"] c d s
    by simp
  have pop: "renderMarker sampleDeps True sampleReference ''3'' 1 =
       RPopover 1 (getPopoverContent sampleDeps True sampleReference 3)"
    using render_mode_by_doc_type[of sampleDeps True sampleReference "''3''" 1 "sampleChunks ! 0"] n i3
    by simp
  from s c d im rm media n pop show ?thesis by blast
qed

section \<open>Orphan chunks\<close>

text \<open>
  C7. For a chunk whose document id is the id of no aggregate, the popover content is
  the key, the image of the chunk if it has one, and the sanitized content of the chunk;
  the block with the thumbnail, the document name and the link is not rendered.
\<close>

theorem orphan_chunk_popover:
  assumes "chunkAt (chunksOf r) i = Some c"
    and "list_all (\<lambda>d. doc_id d \<noteq> document_id c) (docAggsOf r)"
  shows "getPopoverContent D cb r i =
           \<lparr> popKey = Some (chunk_id c),
             popImage = (if truthy (image_id c) then image_id c else None),
             popHtml = sanitize D (case content c of None \<Rightarrow> [] | Some s \<Rightarrow> s),
             popLink = None \<rparr>"
proof -
  have "find (\<lambda>x. doc_id x = document_id c) (docAggsOf r) = None"
    using assms(2) by (auto simp: find_None_iff list_all_iff)
  then have "findDocument r (Some c) = None" by (simp add: findDocument_chunk)
  then show ?thesis
    using assms(1) by (simp add: getPopoverContent_def getReferenceInfo_def Let_def)
qed

theorem orphan_chunk_popover_witness:
  "chunkAt (chunksOf sampleReference) 1 = Some (sampleChunks ! 1)
   \<and> document_id (sampleChunks ! 1) = ''missing''
   \<and> list_all (\<lambda>d. doc_id d \<noteq> document_id (sampleChunks ! 1)) (docAggsOf sampleReference)
   \<and> getPopoverContent sampleDeps True sampleReference 1 =
       \<lparr> popKey = Some ''c1'', popImage = None,
         popHtml = ''b>bold/b>script>alert(1)/script>'', popLink = None \<rparr>"
proof -
  have a: "chunkAt (chunksOf sampleReference) 1 = Some (sampleChunks ! 1)" by code_simp
  have b: "list_all (\<lambda>d. doc_id d \<noteq> document_id (sampleChunks ! 1)) (docAggsOf sampleReference)"
    by code_simp
  have c: "document_id (sampleChunks ! 1) = ''missing''" by code_simp
  have d: "chunk_id (sampleChunks ! 1) = ''c1'' \<and> image_id (sampleChunks ! 1) = None
     \<and> sanitize sampleDeps (case content (sampleChunks ! 1) of None \<Rightarrow> [] | Some s \<Rightarrow> s) =
         ''b>bold/b>script>alert(1)/script>''"
    by code_simp
  show ?thesis
    using a b c d orphan_chunk_popover[OF a b, of sampleDeps True] by (simp add: truthy_def)
qed

section \<open>The click on a document link\<close>

text \<open>
  C8, as the specification states it, fails: with the callback supplied, the link of a
  text file that has no URL does nothing when clicked, and the link of a PDF file that
  has a URL calls the callback and does not navigate.
\<close>

theorem link_click_without_url_or_of_pdf:
  "map_option linkOnClick (popLink (getPopoverContent sampleDeps True sampleReference 2)) =
     Some NoEffect
   \<and> map_option linkOnClick (popLink (getPopoverContent sampleDeps True sampleReference 3)) =
     Some (ClickDocumentButton ''d3'' (Some (sampleChunks ! 3)))
   \<and> documentUrl (getReferenceInfo sampleDeps sampleReference 2) = None
   \<and> documentUrl (getReferenceInfo sampleDeps sampleReference 3) =
       Some ''https://example.org/paper.pdf''"
  by code_simp

text \<open>
  C8, amended. For a chunk whose document is found and has a non-empty id, a click on the
  link does the following: if the extension of the document name is \<^verbatim>\<open>pdf\<close>, it calls
  \<^verbatim>\<open>clickDocumentButton\<close> with the document id and the chunk when the callback was
  supplied, and nothing otherwise, whether or not the document has a URL; if the
  extension is anything else, it opens the URL in a new window when the document has a
  non-empty URL, and does nothing otherwise.
\<close>

theorem document_link_click:
  assumes "chunkAt (chunksOf r) i = Some c"
    and "find (\<lambda>x. doc_id x = document_id c) (docAggsOf r) = Some d"
    and "doc_id d \<noteq> []"
  shows "map_option linkOnClick (popLink (getPopoverContent D cb r i)) =
           Some (if getExtension D (doc_name d) = ''pdf''
                 then (if cb then ClickDocumentButton (doc_id d) (Some c) else NoEffect)
                 else (case url d of
                         None \<Rightarrow> NoEffect
                       | Some u \<Rightarrow> if u = [] then NoEffect else WindowOpen u ''_blank''))"
  using assms
  by (simp add: getPopoverContent_def getReferenceInfo_def Let_def findDocument_chunk
      handleDocumentButtonClick_def)

theorem document_link_click_witness:
  "chunkAt (chunksOf sampleReference) 4 = Some (sampleChunks ! 4)
   \<and> find (\<lambda>x. doc_id x = document_id (sampleChunks ! 4)) (docAggsOf sampleReference) =
       Some (sampleDocs ! 3)
   \<and> doc_id (sampleDocs ! 3) \<noteq> []
   \<and> map_option linkOnClick (popLink (getPopoverContent sampleDeps True sampleReference 4)) =
       Some (WindowOpen ''https://example.org/page'' ''_blank'')"
proof -
  have a: "chunkAt (chunksOf sampleReference) 4 = Some (sampleChunks ! 4)" by code_simp
  have b: "find (\<lambda>x. doc_id x = document_id (sampleChunks ! 4)) (docAggsOf sampleReference) =
       Some (sampleDocs ! 3)" by code_simp
  have c: "doc_id (sampleDocs ! 3) \<noteq> []" by code_simp
  have d: "getExtension sampleDeps (doc_name (sampleDocs ! 3)) = ''html''
     \<and> url (sampleDocs ! 3) = Some ''https://example.org/page''" by code_simp
  show ?thesis
    using a b c d document_link_click[OF a b c, of sampleDeps True] by simp
qed

section \<open>The placeholder for an empty answer\<close>



end
